theory Spec2Isabelle
  imports Main "HOL-Library.AList"
begin

section \<open>OpenStreetMap XML to tables and geometries (\<^verbatim>\<open>geopandas_osm/osm.py\<close>)\<close>

text \<open>
  The development embeds the readers and renderers of \<^verbatim>\<open>osm.py\<close>: an XML element is a
  tag, an attribute dictionary and a list of children; a Python dictionary is an
  association list in insertion order (\<open>AList.update\<close> is item assignment: it replaces the
  value of a present key in place and appends a new key at the end); a raised exception is
  the \<open>Inl\<close> side of a sum. The text parsers of the platform (the XML parser, the
  conversion of a string to a float, the conversion of a string to a date-time) are
  parameters of the functions that call them.
\<close>

subsection \<open>Elements, dictionaries, errors\<close>

datatype element =
  Element (tag: string) (attrib: "(string \<times> string) list") (children: "element list")

datatype error = ParseError | KeyError | ValueError | TypeError

text \<open>\<^verbatim>\<open>uninteresting_tags\<close>, lines 18 to 28.\<close>

definition uninteresting_tags :: "string set" where
  "uninteresting_tags =
     {''source'', ''source_ref'', ''source:ref'', ''history'', ''attribution'',
      ''created_by'', ''tiger:county'', ''tiger:tlid'', ''tiger:upload_uuid''}"

text \<open>\<^verbatim>\<open>element.findall(name)\<close>: the direct children with that tag, in document order.\<close>

definition findall :: "string \<Rightarrow> element \<Rightarrow> element list" where
  "findall name e = filter (\<lambda>c. tag c = name) (children e)"

text \<open>\<^verbatim>\<open>d[k]\<close> on a dictionary raises \<^verbatim>\<open>KeyError\<close> for a missing key.\<close>

definition getitem :: "('k \<times> 'v) list \<Rightarrow> 'k \<Rightarrow> error + 'v" where
  "getitem d k = (case map_of d k of None \<Rightarrow> Inl KeyError | Some v \<Rightarrow> Inr v)"

text \<open>
  \<^verbatim>\<open>_element_to_dict\<close>, lines 182 to 189. The loop over the child \<^verbatim>\<open>tag\<close> elements reads
  \<^verbatim>\<open>t.attrib['k']\<close> first and \<^verbatim>\<open>t.attrib['v']\<close> only for a key that is kept.
\<close>

fun overlay_tags :: "element list \<Rightarrow> (string \<times> string) list \<Rightarrow> error + (string \<times> string) list" where
  "overlay_tags [] d = Inr d"
| "overlay_tags (t # ts) d =
     (case getitem (attrib t) ''k'' of
        Inl e \<Rightarrow> Inl e
      | Inr k \<Rightarrow>
          if k \<notin> uninteresting_tags
          then (case getitem (attrib t) ''v'' of
                  Inl e \<Rightarrow> Inl e
                | Inr v \<Rightarrow> overlay_tags ts (AList.update k v d))
          else overlay_tags ts d)"

definition element_to_dict :: "element \<Rightarrow> error + (string \<times> string) list" where
  "element_to_dict element = overlay_tags (findall ''tag'' element) (attrib element)"

text \<open>A list comprehension whose body may raise stops at the first exception.\<close>

fun sequence_err :: "(error + 'a) list \<Rightarrow> error + 'a list" where
  "sequence_err [] = Inr []"
| "sequence_err (x # xs) =
     (case x of
        Inl e \<Rightarrow> Inl e
      | Inr y \<Rightarrow> (case sequence_err xs of Inl e \<Rightarrow> Inl e | Inr ys \<Rightarrow> Inr (y # ys)))"

subsection \<open>Cells, rows and data frames\<close>

text \<open>
  A cell holds a string (an XML attribute or tag value), an integer (the \<^verbatim>\<open>index\<close> written
  by \<^verbatim>\<open>enumerate\<close>), a float, a date-time or a geometry. Floats and date-times are values
  of two type parameters: nothing here computes with them. A null cell (pandas' NaN, NaT
  or None) is \<open>None\<close>; a row maps every column name to its cell and is null elsewhere.
\<close>

datatype 'f geom =
  Point "'f option" "'f option"
| LineString "('f option \<times> 'f option) list"

datatype ('f, 't) val =
  VStr string | VInt nat | VFloat 'f | VTime 't | VGeom "'f geom"

type_synonym ('f, 't) row = "string \<Rightarrow> ('f, 't) val option"

record ('f, 't) frame =
  columns :: "string list"
  rows :: "('f, 't) row list"

text \<open>What a conversion of a string makes of it: a failure, a null (NaN, NaT) or a value.\<close>

datatype 'a conv = Unparsable | Null | Value 'a

text \<open>The string values of an element's dictionary as cells.\<close>

definition strs :: "(string \<times> string) list \<Rightarrow> (string \<times> ('f, 't) val) list" where
  "strs d = map (\<lambda>(k, v). (k, VStr v)) d"

text \<open>
  \<^verbatim>\<open>pd.DataFrame.from_dict\<close> on a list of dictionaries: one row per dictionary in the
  list's order, the columns are the keys in order of first appearance, a key that a
  dictionary lacks is null in its row. The empty list gives no rows and no columns.
\<close>

definition from_dict :: "(string \<times> ('f, 't) val) list list \<Rightarrow> ('f, 't) frame" where
  "from_dict ds =
     \<lparr>columns = rev (remdups (rev (concat (map (map fst) ds)))), rows = map map_of ds\<rparr>"

text \<open>Replacing column \<open>c\<close> by its conversion, cell by cell; the first failure is raised.\<close>

definition convert_column ::
  "(('f, 't) val option \<Rightarrow> error + ('f, 't) val option) \<Rightarrow> string \<Rightarrow> ('f, 't) frame
     \<Rightarrow> error + ('f, 't) frame" where
  "convert_column f c df =
     (case sequence_err
             (map (\<lambda>r. case f (r c) of Inl e \<Rightarrow> Inl e | Inr v \<Rightarrow> Inr (r(c := v))) (rows df)) of
        Inl e \<Rightarrow> Inl e
      | Inr rs \<Rightarrow> Inr (df\<lparr>rows := rs\<rparr>))"

text \<open>
  \<^verbatim>\<open>pd.to_datetime\<close> on one cell: a null stays null, a string is parsed and a failure is
  raised. The tables built here hold only strings in a \<^verbatim>\<open>timestamp\<close> column (the one
  integer column is \<^verbatim>\<open>index\<close>); the other cases are never reached.
\<close>

fun to_datetime_cell ::
  "(string \<Rightarrow> 't conv) \<Rightarrow> ('f, 't) val option \<Rightarrow> error + ('f, 't) val option" where
  "to_datetime_cell to_datetime None = Inr None"
| "to_datetime_cell to_datetime (Some (VStr s)) =
     (case to_datetime s of
        Unparsable \<Rightarrow> Inl ValueError
      | Null \<Rightarrow> Inr None
      | Value t \<Rightarrow> Inr (Some (VTime t)))"
| "to_datetime_cell to_datetime (Some (VTime t)) = Inr (Some (VTime t))"
| "to_datetime_cell to_datetime (Some _) = Inl TypeError"

text \<open>\<^verbatim>\<open>Series.astype(float)\<close> on one cell, likewise.\<close>

fun astype_float_cell ::
  "(string \<Rightarrow> 'f conv) \<Rightarrow> ('f, 't) val option \<Rightarrow> error + ('f, 't) val option" where
  "astype_float_cell to_float None = Inr None"
| "astype_float_cell to_float (Some (VStr s)) =
     (case to_float s of
        Unparsable \<Rightarrow> Inl ValueError
      | Null \<Rightarrow> Inr None
      | Value x \<Rightarrow> Inr (Some (VFloat x)))"
| "astype_float_cell to_float (Some (VFloat x)) = Inr (Some (VFloat x))"
| "astype_float_cell to_float (Some _) = Inl TypeError"

text \<open>\<^verbatim>\<open>_dict_to_dataframe\<close>, lines 192 to 197.\<close>

definition dict_to_dataframe ::
  "(string \<Rightarrow> 't conv) \<Rightarrow> (string \<times> ('f, 't) val) list list \<Rightarrow> error + ('f, 't) frame" where
  "dict_to_dataframe to_datetime d =
     (let df = from_dict d
      in if ''timestamp'' \<in> set (columns df)
         then convert_column (to_datetime_cell to_datetime) ''timestamp'' df
         else Inr df)"

text \<open>
  \<^verbatim>\<open>nodes[c] = nodes[c].astype(float)\<close>: reading a column that the frame does not have
  raises \<^verbatim>\<open>KeyError\<close>.
\<close>

definition astype_float ::
  "(string \<Rightarrow> 'f conv) \<Rightarrow> string \<Rightarrow> ('f, 't) frame \<Rightarrow> error + ('f, 't) frame" where
  "astype_float to_float c df =
     (if c \<in> set (columns df) then convert_column (astype_float_cell to_float) c df
      else Inl KeyError)"

subsection \<open>The table readers\<close>

text \<open>\<^verbatim>\<open>read_nodes\<close>, lines 167 to 179.\<close>

definition read_nodes ::
  "(string \<Rightarrow> 'f conv) \<Rightarrow> (string \<Rightarrow> 't conv) \<Rightarrow> element \<Rightarrow> error + ('f, 't) frame" where
  "read_nodes to_float to_datetime doc =
     (case sequence_err (map element_to_dict (findall ''node'' doc)) of
        Inl e \<Rightarrow> Inl e
      | Inr ds \<Rightarrow>
          (case dict_to_dataframe to_datetime (map strs ds) of
             Inl e \<Rightarrow> Inl e
           | Inr df \<Rightarrow>
               (case astype_float to_float ''lon'' df of
                  Inl e \<Rightarrow> Inl e
                | Inr df' \<Rightarrow> astype_float to_float ''lat'' df')))"

text \<open>
  The inner loop of \<^verbatim>\<open>read_ways\<close> and \<^verbatim>\<open>read_relations\<close>: a copy of each child's
  attributes with \<^verbatim>\<open>id\<close> set to the owner's id and \<^verbatim>\<open>index\<close> to the child's position.
\<close>

definition link_dicts :: "string \<Rightarrow> element list \<Rightarrow> (string \<times> ('f, 't) val) list list" where
  "link_dicts ownerid cs =
     map (\<lambda>(i, c). AList.update ''index'' (VInt i) (AList.update ''id'' (VStr ownerid) (strs (attrib c))))
       (enumerate 0 cs)"

text \<open>
  The outer loop, with its two accumulators. \<^verbatim>\<open>read_ways\<close> (lines 200 to 232) runs it over
  the \<^verbatim>\<open>way\<close> elements and their \<^verbatim>\<open>nd\<close> children, \<^verbatim>\<open>read_relations\<close> (lines 235 to 267)
  over the \<^verbatim>\<open>relation\<close> elements and their \<^verbatim>\<open>member\<close> children; the two functions differ
  in nothing else.
\<close>

fun read_loop ::
  "string \<Rightarrow> element list \<Rightarrow> (string \<times> ('f, 't) val) list list \<Rightarrow> (string \<times> ('f, 't) val) list list
     \<Rightarrow> error + (string \<times> ('f, 't) val) list list \<times> (string \<times> ('f, 't) val) list list" where
  "read_loop child [] links tags = Inr (links, tags)"
| "read_loop child (x # xs) links tags =
     (case getitem (attrib x) ''id'' of
        Inl e \<Rightarrow> Inl e
      | Inr ownerid \<Rightarrow>
          (let links' = links @ link_dicts ownerid (findall child x)
           in case element_to_dict x of
                Inl e \<Rightarrow> Inl e
              | Inr d \<Rightarrow> read_loop child xs links' (tags @ [strs d])))"

definition read_linked ::
  "string \<Rightarrow> string \<Rightarrow> (string \<Rightarrow> 't conv) \<Rightarrow> element \<Rightarrow> error + ('f, 't) frame \<times> ('f, 't) frame" where
  "read_linked kind child to_datetime doc =
     (case read_loop child (findall kind doc) [] [] of
        Inl e \<Rightarrow> Inl e
      | Inr (links, tags) \<Rightarrow>
          (case dict_to_dataframe to_datetime links of
             Inl e \<Rightarrow> Inl e
           | Inr linkframe \<Rightarrow>
               (case dict_to_dataframe to_datetime tags of
                  Inl e \<Rightarrow> Inl e
                | Inr tagframe \<Rightarrow> Inr (linkframe, tagframe))))"

definition read_ways ::
  "(string \<Rightarrow> 't conv) \<Rightarrow> element \<Rightarrow> error + ('f, 't) frame \<times> ('f, 't) frame" where
  "read_ways = read_linked ''way'' ''nd''"

definition read_relations ::
  "(string \<Rightarrow> 't conv) \<Rightarrow> element \<Rightarrow> error + ('f, 't) frame \<times> ('f, 't) frame" where
  "read_relations = read_linked ''relation'' ''member''"

subsection \<open>Frame operations used by the renderer\<close>

text \<open>\<^verbatim>\<open>Index.drop(labels)\<close>: every label must be present.\<close>

definition drop_labels :: "string list \<Rightarrow> string list \<Rightarrow> error + string list" where
  "drop_labels labels cols =
     (if set labels \<subseteq> set cols then Inr (filter (\<lambda>c. c \<notin> set labels) cols) else Inl KeyError)"

text \<open>\<^verbatim>\<open>df.dropna(subset=subset, how='all')\<close> keeps a row that is not null in some column of the subset.\<close>

definition dropna_all :: "string list \<Rightarrow> ('f, 't) frame \<Rightarrow> ('f, 't) frame" where
  "dropna_all labels df = df\<lparr>rows := filter (\<lambda>r. \<exists>c\<in>set labels. r c \<noteq> None) (rows df)\<rparr>"

text \<open>\<^verbatim>\<open>df.drop(labels, axis=1)\<close>.\<close>

definition drop_columns :: "string list \<Rightarrow> ('f, 't) frame \<Rightarrow> error + ('f, 't) frame" where
  "drop_columns labels df =
     (case drop_labels labels (columns df) of
        Inl e \<Rightarrow> Inl e
      | Inr cs \<Rightarrow>
          Inr \<lparr>columns = cs, rows = map (\<lambda>r c. if c \<in> set labels then None else r c) (rows df)\<rparr>)"

text \<open>\<^verbatim>\<open>df[labels]\<close> with a list of labels: every label must be present.\<close>

definition select_columns :: "string list \<Rightarrow> ('f, 't) frame \<Rightarrow> error + ('f, 't) frame" where
  "select_columns labels df =
     (if set labels \<subseteq> set (columns df)
      then Inr \<lparr>columns = labels, rows = map (\<lambda>r c. if c \<in> set labels then r c else None) (rows df)\<rparr>
      else Inl KeyError)"

text \<open>
  Storing one geometry per row in the column \<^verbatim>\<open>geometry\<close> (what \<^verbatim>\<open>set_geometry\<close> does
  with a list or a series of values): the column is appended if the frame lacks it and
  overwritten otherwise; a missing geometry is a null cell.
\<close>

definition set_geometry :: "'f geom option list \<Rightarrow> ('f, 't) frame \<Rightarrow> ('f, 't) frame" where
  "set_geometry gs df =
     \<lparr>columns = (if ''geometry'' \<in> set (columns df) then columns df else columns df @ [''geometry'']),
      rows = map (\<lambda>(r, g). r(''geometry'' := map_option VGeom g)) (zip (rows df) gs)\<rparr>"

text \<open>\<^verbatim>\<open>x[c]\<close> on a row of a frame with the given columns.\<close>

definition row_item :: "string list \<Rightarrow> ('f, 't) row \<Rightarrow> string \<Rightarrow> error + ('f, 't) val option" where
  "row_item cols x c = (if c \<in> set cols then Inr (x c) else Inl KeyError)"

text \<open>
  A cell as a coordinate: a float is itself, a null is NaN (\<open>None\<close>). The coordinate
  columns of a table of \<^verbatim>\<open>read_nodes\<close> hold nothing else.
\<close>

fun coord :: "('f, 't) val option \<Rightarrow> error + 'f option" where
  "coord None = Inr None"
| "coord (Some (VFloat x)) = Inr (Some x)"
| "coord (Some _) = Inl TypeError"

text \<open>\<^verbatim>\<open>Point(x['lon'], x['lat'])\<close>.\<close>

definition point_of :: "string list \<Rightarrow> ('f, 't) row \<Rightarrow> error + 'f geom" where
  "point_of cols x =
     (case row_item cols x ''lon'' of
        Inl e \<Rightarrow> Inl e
      | Inr lon \<Rightarrow>
          (case row_item cols x ''lat'' of
             Inl e \<Rightarrow> Inl e
           | Inr lat \<Rightarrow>
               (case coord lon of
                  Inl e \<Rightarrow> Inl e
                | Inr a \<Rightarrow> (case coord lat of Inl e \<Rightarrow> Inl e | Inr b \<Rightarrow> Inr (Point a b)))))"

text \<open>\<^verbatim>\<open>LineString(coordinates)\<close>: shapely refuses a line of exactly one coordinate.\<close>

definition line_string :: "('f option \<times> 'f option) list \<Rightarrow> error + 'f geom" where
  "line_string cs = (if length cs = 1 then Inl ValueError else Inr (LineString cs))"

subsection \<open>The renderer\<close>

text \<open>\<^verbatim>\<open>render_nodes\<close>, lines 281 to 290.\<close>

definition render_nodes :: "('f, 't) frame \<Rightarrow> bool \<Rightarrow> error + ('f, 't) frame" where
  "render_nodes ns drop_untagged =
     (case (if drop_untagged
            then (case drop_labels [''id'', ''lon'', ''lat''] (columns ns) of
                    Inl e \<Rightarrow> Inl e
                  | Inr tagcols \<Rightarrow> Inr (dropna_all tagcols ns))
            else Inr ns) of
        Inl e \<Rightarrow> Inl e
      | Inr ns1 \<Rightarrow>
          (case sequence_err (map (point_of (columns ns1)) (rows ns1)) of
             Inl e \<Rightarrow> Inl e
           | Inr points \<Rightarrow>
               (case drop_columns [''lon'', ''lat''] ns1 of
                  Inl e \<Rightarrow> Inl e
                | Inr ns2 \<Rightarrow> Inr (set_geometry (map Some points) ns2))))"

text \<open>
  \<^verbatim>\<open>waynodes.merge(node_points, left_on='ref', right_on='id', suffixes=('', '_nodes'))\<close>:
  the inner join, left rows in their order and, for each, the matching right rows in
  theirs (two null keys match, as in pandas). A right column whose name the left frame
  has too is renamed with the suffix \<^verbatim>\<open>_nodes\<close>; the left column keeps its name.
\<close>

definition suffixed :: "string list \<Rightarrow> string \<Rightarrow> string" where
  "suffixed lcols c = (if c \<in> set lcols then c @ ''_nodes'' else c)"

definition merge_row ::
  "string list \<Rightarrow> string list \<Rightarrow> ('f, 't) row \<Rightarrow> ('f, 't) row \<Rightarrow> ('f, 't) row" where
  "merge_row lcols rcols l r =
     (\<lambda>c. if c \<in> set lcols then l c
          else (case find (\<lambda>rc. suffixed lcols rc = c) rcols of None \<Rightarrow> None | Some rc \<Rightarrow> r rc))"

definition merge_frames :: "('f, 't) frame \<Rightarrow> ('f, 't) frame \<Rightarrow> error + ('f, 't) frame" where
  "merge_frames left right =
     (if ''ref'' \<in> set (columns left) \<and> ''id'' \<in> set (columns right)
      then Inr \<lparr>columns = columns left @ map (suffixed (columns left)) (columns right),
                rows = concat (map (\<lambda>l. map (merge_row (columns left) (columns right) l)
                                         (filter (\<lambda>r. r ''id'' = l ''ref'') (rows right)))
                                (rows left))\<rparr>
      else Inl KeyError)"

text \<open>
  \<^verbatim>\<open>wayline\<close>, lines 299 to 301, on the rows of one group: sorted by \<^verbatim>\<open>index\<close> ascending,
  their \<^verbatim>\<open>(lon, lat)\<close> pairs make the line. \<^verbatim>\<open>index\<close> holds the integers of \<^verbatim>\<open>enumerate\<close>.
\<close>

definition index_key :: "('f, 't) row \<Rightarrow> nat" where
  "index_key r = (case r ''index'' of Some (VInt n) \<Rightarrow> n | _ \<Rightarrow> 0)"

definition int_index :: "('f, 't) row \<Rightarrow> bool" where
  "int_index r = (case r ''index'' of Some (VInt n) \<Rightarrow> True | _ \<Rightarrow> False)"

definition lonlat :: "('f, 't) row \<Rightarrow> error + 'f option \<times> 'f option" where
  "lonlat r =
     (case coord (r ''lon'') of
        Inl e \<Rightarrow> Inl e
      | Inr a \<Rightarrow> (case coord (r ''lat'') of Inl e \<Rightarrow> Inl e | Inr b \<Rightarrow> Inr (a, b)))"

definition wayline :: "string list \<Rightarrow> ('f, 't) row list \<Rightarrow> error + 'f geom" where
  "wayline cols df =
     (if ''index'' \<notin> set cols then Inl KeyError
      else if \<not> list_all int_index df then Inl TypeError
      else (case sequence_err (map lonlat (sort_key index_key df)) of
              Inl e \<Rightarrow> Inl e
            | Inr cs \<Rightarrow> line_string cs))"

text \<open>
  \<^verbatim>\<open>waynodes.groupby('id').apply(wayline)\<close>: one line per distinct non-null \<^verbatim>\<open>id\<close>, keyed
  by it. The result is only ever looked up by key, so the keys are left in order of first
  appearance.
\<close>

definition group_keys :: "('f, 't) row list \<Rightarrow> ('f, 't) val list" where
  "group_keys rs = rev (remdups (rev (List.map_filter (\<lambda>r. r ''id'') rs)))"

definition groupby_apply ::
  "('f, 't) frame \<Rightarrow> error + (('f, 't) val \<times> 'f geom) list" where
  "groupby_apply df =
     sequence_err
       (map (\<lambda>k. case wayline (columns df) (filter (\<lambda>r. r ''id'' = Some k) (rows df)) of
                   Inl e \<Rightarrow> Inl e
                 | Inr g \<Rightarrow> Inr (k, g))
          (group_keys (rows df)))"

text \<open>
  \<^verbatim>\<open>waytags.set_index('id').set_geometry(way_lines)\<close> and \<^verbatim>\<open>reset_index\<close>: \<^verbatim>\<open>id\<close> becomes
  the first column, and each row gets the line that \<^verbatim>\<open>way_lines\<close> holds for its \<^verbatim>\<open>id\<close>, or
  a null geometry when there is none.
\<close>

definition attach_lines ::
  "(('f, 't) val \<times> 'f geom) list \<Rightarrow> ('f, 't) frame \<Rightarrow> ('f, 't) frame" where
  "attach_lines way_lines wt =
     (let indexed = \<lparr>columns = ''id'' # filter (\<lambda>c. c \<noteq> ''id'') (columns wt), rows = rows wt\<rparr>
      in set_geometry
           (map (\<lambda>r. case r ''id'' of None \<Rightarrow> None | Some k \<Rightarrow> map_of way_lines k) (rows wt))
           indexed)"

text \<open>
  \<^verbatim>\<open>render_ways\<close>, lines 293 to 312. \<open>None\<close> is the function's \<^verbatim>\<open>None\<close>: an empty
  \<^verbatim>\<open>waynodes\<close> frame (no rows, or no columns). When the join leaves no group at all,
  \<^verbatim>\<open>apply\<close> returns an empty two-dimensional frame, which \<^verbatim>\<open>set_geometry\<close> refuses.
\<close>

definition render_ways ::
  "('f, 't) frame \<Rightarrow> ('f, 't) frame \<Rightarrow> ('f, 't) frame \<Rightarrow> error + ('f, 't) frame option" where
  "render_ways ns wn wt =
     (if rows wn = [] \<or> columns wn = [] then Inr None
      else (case select_columns [''id'', ''lon'', ''lat''] ns of
              Inl e \<Rightarrow> Inl e
            | Inr node_points \<Rightarrow>
                (case merge_frames wn node_points of
                   Inl e \<Rightarrow> Inl e
                 | Inr merged \<Rightarrow>
                     (case groupby_apply merged of
                        Inl e \<Rightarrow> Inl e
                      | Inr way_lines \<Rightarrow>
                          if ''id'' \<notin> set (columns wt) then Inl KeyError
                          else if way_lines = [] then Inl ValueError
                          else Inr (Some (attach_lines way_lines wt))))))"

text \<open>\<^verbatim>\<open>nodes.append(ways)\<close>: the rows of both, over the union of their columns.\<close>

definition append_frames :: "('f, 't) frame \<Rightarrow> ('f, 't) frame \<Rightarrow> ('f, 't) frame" where
  "append_frames a b =
     \<lparr>columns = columns a @ filter (\<lambda>c. c \<notin> set (columns a)) (columns b), rows = rows a @ rows b\<rparr>"

text \<open>\<^verbatim>\<open>OSMData\<close>, lines 12 and 13.\<close>

record ('f, 't) osmdata =
  nodes :: "('f, 't) frame"
  waynodes :: "('f, 't) frame"
  waytags :: "('f, 't) frame"
  relmembers :: "('f, 't) frame"
  reltags :: "('f, 't) frame"

text \<open>\<^verbatim>\<open>render_to_gdf\<close>, lines 270 to 278.\<close>

definition render_to_gdf :: "('f, 't) osmdata \<Rightarrow> bool \<Rightarrow> error + ('f, 't) frame" where
  "render_to_gdf osm drop_untagged =
     (case render_nodes (nodes osm) drop_untagged of
        Inl e \<Rightarrow> Inl e
      | Inr points \<Rightarrow>
          (case render_ways (nodes osm) (waynodes osm) (waytags osm) of
             Inl e \<Rightarrow> Inl e
           | Inr None \<Rightarrow> Inr points
           | Inr (Some ways) \<Rightarrow> Inr (append_frames points ways)))"

subsection \<open>Reading a document\<close>

text \<open>What \<^verbatim>\<open>read_osm\<close> returns: the five tables, or the rendered frame.\<close>

datatype ('f, 't) osm_result = Tables "('f, 't) osmdata" | Rendered "('f, 't) frame"

text \<open>The part of \<^verbatim>\<open>read_osm\<close> after the parse, lines 155 to 164.\<close>

definition read_doc ::
  "(string \<Rightarrow> 'f conv) \<Rightarrow> (string \<Rightarrow> 't conv) \<Rightarrow> element \<Rightarrow> bool \<Rightarrow> bool \<Rightarrow> error + ('f, 't) osm_result" where
  "read_doc to_float to_datetime doc render drop_untagged =
     (case read_nodes to_float to_datetime doc of
        Inl e \<Rightarrow> Inl e
      | Inr ns \<Rightarrow>
          (case read_ways to_datetime doc of
             Inl e \<Rightarrow> Inl e
           | Inr (wn, wt) \<Rightarrow>
               (case read_relations to_datetime doc of
                  Inl e \<Rightarrow> Inl e
                | Inr (rm, rt) \<Rightarrow>
                    (let data = \<lparr>nodes = ns, waynodes = wn, waytags = wt, relmembers = rm, reltags = rt\<rparr>
                     in if render
                        then (case render_to_gdf data drop_untagged of
                                Inl e \<Rightarrow> Inl e
                              | Inr g \<Rightarrow> Inr (Rendered g))
                        else Inr (Tables data)))))"

text \<open>
  \<^verbatim>\<open>read_osm\<close>, lines 147 to 164. \<open>fromstring\<close> is \<^verbatim>\<open>ET.fromstring\<close>: \<open>None\<close> when the
  content is not well-formed XML, which is the parser's \<^verbatim>\<open>ParseError\<close>.
\<close>

definition read_osm ::
  "(string \<Rightarrow> element option) \<Rightarrow> (string \<Rightarrow> 'f conv) \<Rightarrow> (string \<Rightarrow> 't conv) \<Rightarrow> string \<Rightarrow> bool \<Rightarrow> bool
     \<Rightarrow> error + ('f, 't) osm_result" where
  "read_osm fromstring to_float to_datetime content render drop_untagged =
     (case fromstring content of
        None \<Rightarrow> Inl ParseError
      | Some doc \<Rightarrow> read_doc to_float to_datetime doc render drop_untagged)"

subsection \<open>Definitions used to state the properties\<close>

text \<open>A document with its \<^verbatim>\<open>relation\<close> elements removed.\<close>

definition without_relations :: "element \<Rightarrow> element" where
  "without_relations doc =
     Element (tag doc) (attrib doc) (filter (\<lambda>c. tag c \<noteq> ''relation'') (children doc))"

text \<open>
  The key and value of a child \<^verbatim>\<open>tag\<close> element that has both attributes, and the
  tags of an element that the sanitizer keeps, in document order.
\<close>

definition tag_kv :: "element \<Rightarrow> (string \<times> string) option" where
  "tag_kv t =
     (case map_of (attrib t) ''k'' of
        None \<Rightarrow> None
      | Some k \<Rightarrow> (case map_of (attrib t) ''v'' of None \<Rightarrow> None | Some v \<Rightarrow> Some (k, v)))"

definition kept_tags :: "element \<Rightarrow> (string \<times> string) list" where
  "kept_tags e =
     filter (\<lambda>kv. fst kv \<notin> uninteresting_tags) (List.map_filter tag_kv (findall ''tag'' e))"

text \<open>
  The \<^verbatim>\<open>id\<close>, \<^verbatim>\<open>index\<close> and \<^verbatim>\<open>ref\<close> cells that the \<^verbatim>\<open>nd\<close> children of one way element
  stand for: one triple per child, in document order, numbered from 0.
\<close>

definition way_link_cells ::
  "element \<Rightarrow> (('f, 't) val option \<times> ('f, 't) val option \<times> ('f, 't) val option) list" where
  "way_link_cells w =
     map (\<lambda>(i, nd). (map_option VStr (map_of (attrib w) ''id''), Some (VInt i),
                     map_option VStr (map_of (attrib nd) ''ref'')))
       (enumerate 0 (findall ''nd'' w))"

text \<open>
  The names of the native XML attributes that the readers copy into rows: those of the
  \<^verbatim>\<open>node\<close>, \<^verbatim>\<open>way\<close> and \<^verbatim>\<open>relation\<close> elements and of the \<^verbatim>\<open>nd\<close> and \<^verbatim>\<open>member\<close>
  children. The columns of what \<^verbatim>\<open>read_osm\<close> returns: of all five tables, or of the
  rendered frame.
\<close>

definition native_attribute_names :: "element \<Rightarrow> string set" where
  "native_attribute_names doc =
     (\<Union>x\<in>set (findall ''node'' doc) \<union> set (findall ''way'' doc) \<union> set (findall ''relation'' doc).
        fst ` set (attrib x))
     \<union> (\<Union>w\<in>set (findall ''way'' doc). \<Union>c\<in>set (findall ''nd'' w). fst ` set (attrib c))
     \<union> (\<Union>r\<in>set (findall ''relation'' doc). \<Union>c\<in>set (findall ''member'' r). fst ` set (attrib c))"

fun result_columns :: "('f, 't) osm_result \<Rightarrow> string set" where
  "result_columns (Tables d) =
     set (columns (nodes d)) \<union> set (columns (waynodes d)) \<union> set (columns (waytags d))
     \<union> set (columns (relmembers d)) \<union> set (columns (reltags d))"
| "result_columns (Rendered g) = set (columns g)"

text \<open>
  A cell read as a coordinate (a null or a non-float is NaN), the cells that a coordinate
  column of \<^verbatim>\<open>read_nodes\<close> holds, a row whose only non-null columns are among \<^verbatim>\<open>id\<close>,
  \<^verbatim>\<open>lon\<close> and \<^verbatim>\<open>lat\<close>, and the point row of a node row: \<^verbatim>\<open>lon\<close> and \<^verbatim>\<open>lat\<close> dropped, the
  point built from them stored under \<^verbatim>\<open>geometry\<close>.
\<close>

definition coordinate :: "('f, 't) val option \<Rightarrow> 'f option" where
  "coordinate v = (case v of Some (VFloat x) \<Rightarrow> Some x | _ \<Rightarrow> None)"

definition float_or_null :: "('f, 't) val option \<Rightarrow> bool" where
  "float_or_null v = (case v of None \<Rightarrow> True | Some (VFloat x) \<Rightarrow> True | _ \<Rightarrow> False)"

definition untagged :: "string list \<Rightarrow> ('f, 't) row \<Rightarrow> bool" where
  "untagged cols r = (\<forall>c\<in>set cols. c \<notin> {''id'', ''lon'', ''lat''} \<longrightarrow> r c = None)"

definition as_point :: "('f, 't) row \<Rightarrow> ('f, 't) row" where
  "as_point r =
     r(''lon'' := None, ''lat'' := None,
       ''geometry'' \<mapsto> VGeom (Point (coordinate (r ''lon'')) (coordinate (r ''lat''))))"

text \<open>
  The references of the way with id \<open>k\<close> as WayNodes holds them: the \<^verbatim>\<open>(index, ref)\<close> cells
  of its rows, taken in ascending \<^verbatim>\<open>index\<close> order. The coordinates of the node whose \<^verbatim>\<open>id\<close>
  cell is \<open>a\<close>, if the Nodes table has one. The coordinates that remain of a way: those of
  its references, in index order, that match a node. The geometry cell they make: a line,
  or null when nothing remains.
\<close>

definition way_links :: "('f, 't) val \<Rightarrow> ('f, 't) frame \<Rightarrow> (('f, 't) val option \<times> ('f, 't) val option) list" where
  "way_links k wn =
     map (\<lambda>l. (l ''index'', l ''ref''))
       (sort_key index_key (filter (\<lambda>l. l ''id'' = Some k) (rows wn)))"

definition node_coords :: "('f, 't) frame \<Rightarrow> ('f, 't) val option \<Rightarrow> ('f option \<times> 'f option) option" where
  "node_coords ns a =
     map_option (\<lambda>r. (coordinate (r ''lon''), coordinate (r ''lat'')))
       (find (\<lambda>r. r ''id'' = a) (rows ns))"

definition way_coords :: "('f, 't) val \<Rightarrow> ('f, 't) frame \<Rightarrow> ('f, 't) frame \<Rightarrow> ('f option \<times> 'f option) list" where
  "way_coords k ns wn = List.map_filter (\<lambda>p. node_coords ns (snd p)) (way_links k wn)"

definition line_cell :: "('f, 't) val \<Rightarrow> ('f, 't) frame \<Rightarrow> ('f, 't) frame \<Rightarrow> ('f, 't) val option" where
  "line_cell k ns wn =
     (if way_coords k ns wn = [] then None else Some (VGeom (LineString (way_coords k ns wn))))"

text \<open>
  How a referenced node id resolves against the Nodes table: to nothing when no node has
  the id (a dangling reference), to \<open>(x, y)\<close> when a node with the id has the float
  coordinates \<open>lon = x\<close> and \<open>lat = y\<close>. The coordinates that remain of a list of resolved
  references.
\<close>

definition resolves ::
  "('f, 't) frame \<Rightarrow> ('f, 't) val \<Rightarrow> ('f \<times> 'f) option \<Rightarrow> bool" where
  "resolves ns a c =
     (case c of
        None \<Rightarrow> \<forall>r\<in>set (rows ns). r ''id'' \<noteq> Some a
      | Some xy \<Rightarrow> \<exists>r\<in>set (rows ns). r ''id'' = Some a \<and> r ''lon'' = Some (VFloat (fst xy))
                     \<and> r ''lat'' = Some (VFloat (snd xy)))"

definition remaining :: "('f \<times> 'f) option list \<Rightarrow> ('f option \<times> 'f option) list" where
  "remaining cs = List.map_filter (map_option (\<lambda>xy. (Some (fst xy), Some (snd xy)))) cs"

text \<open>
  Two notions used in the proofs about the join: a row cut down to some columns (the rows of
  \<^verbatim>\<open>nodes[['id', 'lon', 'lat']]\<close>), and the merged row of a WayNodes row, if its \<^verbatim>\<open>ref\<close>
  matches a node. The geometry cells of a rendered result.
\<close>

definition restrict_row :: "string list \<Rightarrow> ('f, 't) row \<Rightarrow> ('f, 't) row" where
  "restrict_row labels r = (\<lambda>c. if c \<in> set labels then r c else None)"

definition joined :: "('f, 't) frame \<Rightarrow> string list \<Rightarrow> ('f, 't) row \<Rightarrow> ('f, 't) row option" where
  "joined ns lcols l =
     map_option (\<lambda>r. merge_row lcols [''id'', ''lon'', ''lat''] l (restrict_row [''id'', ''lon'', ''lat''] r))
       (find (\<lambda>r. r ''id'' = l ''ref'') (rows ns))"

fun rendered_geometries :: "('f, 't) osm_result \<Rightarrow> ('f, 't) val option list" where
  "rendered_geometries (Rendered g) = map (\<lambda>r. r ''geometry'') (rows g)"
| "rendered_geometries (Tables d) = []"

subsection \<open>Stand-ins for the platform's parsers and a sample document\<close>

text \<open>
  The theorems below hold for every XML parser, float conversion and date-time
  conversion. To apply them to concrete inputs, these three stand-ins are used: a parser
  that knows one document, a float conversion that accepts decimal literals and keeps
  them as text, and a date-time conversion that accepts 20-character ISO stamps.
\<close>

definition demo_fromstring :: "string \<Rightarrow> element option" where
  "demo_fromstring s = (if s = ''<osm/>'' then Some (Element ''osm'' [] []) else None)"

definition demo_float :: "string \<Rightarrow> string conv" where
  "demo_float s =
     (if s = ''nan'' then Null
      else if s \<noteq> [] \<and> list_all (\<lambda>c. c \<in> set ''0123456789.-'') s then Value s
      else Unparsable)"

definition demo_datetime :: "string \<Rightarrow> string conv" where
  "demo_datetime s =
     (if s = [] then Null
      else if length s = 20 \<and> list_all (\<lambda>c. c \<in> set ''0123456789-:TZ'') s then Value s
      else Unparsable)"

definition demo_doc :: element where
  "demo_doc = Element ''osm'' []
     [Element ''node'' [(''id'', ''1''), (''lat'', ''42.5''), (''lon'', ''-71.0'')]
        [Element ''tag'' [(''k'', ''highway''), (''v'', ''crossing'')] [],
         Element ''tag'' [(''k'', ''source''), (''v'', ''Bing'')] []],
      Element ''node'' [(''id'', ''2''), (''lat'', ''42.6''), (''lon'', ''-71.1'')] [],
      Element ''node'' [(''id'', ''3''), (''lat'', ''42.7''), (''lon'', ''-71.2'')] [],
      Element ''way'' [(''id'', ''10'')]
        [Element ''nd'' [(''ref'', ''3'')] [],
         Element ''nd'' [(''ref'', ''1'')] [],
         Element ''nd'' [(''ref'', ''2'')] [],
         Element ''tag'' [(''k'', ''name''), (''v'', ''Centre Street'')] [],
         Element ''tag'' [(''k'', ''created_by''), (''v'', ''JOSM'')] []],
      Element ''way'' [(''id'', ''11'')] [],
      Element ''relation'' [(''id'', ''20'')]
        [Element ''member'' [(''type'', ''way''), (''ref'', ''10''), (''role'', ''outer'')] [],
         Element ''tag'' [(''k'', ''type''), (''v'', ''boundary'')] []]]"

definition demo_node :: element where
  "demo_node = Element ''node'' [(''id'', ''1''), (''lat'', ''42.5''), (''lon'', ''-71.0'')]
        [Element ''tag'' [(''k'', ''highway''), (''v'', ''crossing'')] [],
         Element ''tag'' [(''k'', ''source''), (''v'', ''Bing'')] [],
         Element ''tag'' [(''k'', ''lat''), (''v'', ''north'')] []]"

text \<open>A node whose latitude and timestamp are not parseable.\<close>

definition demo_bad_node :: element where
  "demo_bad_node =
     Element ''node'' [(''id'', ''1''), (''lat'', ''north''), (''lon'', ''-71.0''), (''timestamp'', ''north'')] []"

definition demo_bad_doc :: element where
  "demo_bad_doc = Element ''osm'' [] [demo_bad_node]"

text \<open>A node that carries a denylisted key as a native attribute.\<close>

definition demo_attr_doc :: element where
  "demo_attr_doc = Element ''osm'' []
     [Element ''node'' [(''id'', ''1''), (''lat'', ''42.5''), (''lon'', ''-71.0''), (''source'', ''survey'')] []]"

text \<open>A Nodes table with one tagged and two untagged nodes.\<close>

definition demo_nodes_frame :: "(string, string) frame" where
  "demo_nodes_frame =
     \<lparr>columns = [''id'', ''lat'', ''lon'', ''highway''],
      rows = [[''id'' \<mapsto> VStr ''1'', ''lat'' \<mapsto> VFloat ''42.5'', ''lon'' \<mapsto> VFloat ''-71.0'',
               ''highway'' \<mapsto> VStr ''crossing''],
              [''id'' \<mapsto> VStr ''2'', ''lat'' \<mapsto> VFloat ''42.6'', ''lon'' \<mapsto> VFloat ''-71.1''],
              [''id'' \<mapsto> VStr ''3'', ''lat'' \<mapsto> VFloat ''42.7'', ''lon'' \<mapsto> VFloat ''-71.2'']]\<rparr>"

definition demo_untagged_row :: "(string, string) row" where
  "demo_untagged_row = [''id'' \<mapsto> VStr ''2'', ''lat'' \<mapsto> VFloat ''42.6'', ''lon'' \<mapsto> VFloat ''-71.1'']"

text \<open>
  A WayNodes and a WayTags table for three ways over the Nodes table above, the rows of
  WayNodes out of index order: way 10 references the nodes 3, 1, 2; way 11 only the
  missing node 98; way 12 the nodes 2 and 3 and, between them, the missing node 99. A
  document whose way keeps one of its two references, and one with a way that keeps none.
\<close>

definition demo_waynodes_frame :: "(string, string) frame" where
  "demo_waynodes_frame =
     \<lparr>columns = [''ref'', ''id'', ''index''],
      rows = [[''ref'' \<mapsto> VStr ''1'', ''id'' \<mapsto> VStr ''10'', ''index'' \<mapsto> VInt 1],
              [''ref'' \<mapsto> VStr ''3'', ''id'' \<mapsto> VStr ''10'', ''index'' \<mapsto> VInt 0],
              [''ref'' \<mapsto> VStr ''2'', ''id'' \<mapsto> VStr ''10'', ''index'' \<mapsto> VInt 2],
              [''ref'' \<mapsto> VStr ''98'', ''id'' \<mapsto> VStr ''11'', ''index'' \<mapsto> VInt 0],
              [''ref'' \<mapsto> VStr ''2'', ''id'' \<mapsto> VStr ''12'', ''index'' \<mapsto> VInt 0],
              [''ref'' \<mapsto> VStr ''99'', ''id'' \<mapsto> VStr ''12'', ''index'' \<mapsto> VInt 1],
              [''ref'' \<mapsto> VStr ''3'', ''id'' \<mapsto> VStr ''12'', ''index'' \<mapsto> VInt 2]]\<rparr>"

definition demo_waytags_frame :: "(string, string) frame" where
  "demo_waytags_frame =
     \<lparr>columns = [''id'', ''name''],
      rows = [[''id'' \<mapsto> VStr ''10'', ''name'' \<mapsto> VStr ''Centre Street''],
              [''id'' \<mapsto> VStr ''11''],
              [''id'' \<mapsto> VStr ''12'']]\<rparr>"

definition demo_dangling_doc :: element where
  "demo_dangling_doc = Element ''osm'' []
     [Element ''node'' [(''id'', ''1''), (''lat'', ''42.5''), (''lon'', ''-71.0'')] [],
      Element ''way'' [(''id'', ''10'')]
        [Element ''nd'' [(''ref'', ''1'')] [],
         Element ''nd'' [(''ref'', ''99'')] []]]"

definition demo_all_dangling_doc :: element where
  "demo_all_dangling_doc = Element ''osm'' []
     [Element ''node'' [(''id'', ''1''), (''lat'', ''42.5''), (''lon'', ''-71.0'')] [],
      Element ''node'' [(''id'', ''2''), (''lat'', ''42.6''), (''lon'', ''-71.1'')] [],
      Element ''way'' [(''id'', ''10'')]
        [Element ''nd'' [(''ref'', ''1'')] [],
         Element ''nd'' [(''ref'', ''2'')] []],
      Element ''way'' [(''id'', ''11'')]
        [Element ''nd'' [(''ref'', ''98'')] [],
         Element ''nd'' [(''ref'', ''99'')] []]]"

section \<open>Properties\<close>

subsection \<open>Malformed input\<close>

text \<open>
  C9. When the content is not well-formed XML (the parser rejects it), \<^verbatim>\<open>read_osm\<close>
  fails with the parse error, whatever the flags: no table is built and nothing is
  returned.
\<close>

theorem malformed_xml_aborts:
  "fromstring content = None \<Longrightarrow>
     read_osm fromstring to_float to_datetime content render drop_untagged = Inl ParseError"
  by (simp add: read_osm_def)

theorem malformed_xml_aborts_witness:
  "demo_fromstring ''<osm><node'' = None \<and>
   read_osm demo_fromstring demo_float demo_datetime ''<osm><node'' True True = Inl ParseError"
  using malformed_xml_aborts [of demo_fromstring "''<osm><node''" demo_float demo_datetime True True]
  by (simp add: demo_fromstring_def)

subsection \<open>Relations and the rendered output\<close>

lemma dict_to_dataframe_Nil: "dict_to_dataframe td [] = Inr (from_dict [])"
  by (simp add: dict_to_dataframe_def from_dict_def)

lemma findall_without_relations:
  "name \<noteq> ''relation'' \<Longrightarrow> findall name (without_relations doc) = findall name doc"
  by (auto simp: findall_def without_relations_def intro: filter_cong)

lemma findall_relation_without_relations:
  "findall ''relation'' (without_relations doc) = []"
  by (simp add: findall_def without_relations_def)

lemma read_relations_without_relations:
  "read_relations td (without_relations doc) = Inr (from_dict [], from_dict [])"
  by (simp add: read_relations_def read_linked_def findall_relation_without_relations
      dict_to_dataframe_Nil)

lemma read_nodes_without_relations:
  "read_nodes tf td (without_relations doc) = read_nodes tf td doc"
  by (simp add: read_nodes_def findall_without_relations)

lemma read_ways_without_relations:
  "read_ways td (without_relations doc) = read_ways td doc"
  by (simp add: read_ways_def read_linked_def findall_without_relations)

lemma render_to_gdf_reads:
  assumes "nodes a = nodes b" and "waynodes a = waynodes b" and "waytags a = waytags b"
  shows "render_to_gdf a drop_untagged = render_to_gdf b drop_untagged"
  unfolding render_to_gdf_def assms by (rule refl)

text \<open>
  C10. Rendering reads only the Nodes, WayNodes and WayTags tables: replacing the two
  relation tables by any others leaves the rendered frame (or the error) unchanged. For a
  document whose relations are read without error, the rendered output is that of the
  same document with every \<^verbatim>\<open>relation\<close> element removed, so no rendered row comes from
  a relation.
\<close>

theorem relations_never_rendered:
  fixes to_float :: "string \<Rightarrow> 'f conv" and to_datetime :: "string \<Rightarrow> 't conv"
    and x :: "('f, 't) frame \<times> ('f, 't) frame"
  shows "render_to_gdf (osm\<lparr>relmembers := rm, reltags := rt\<rparr>) drop_untagged
           = render_to_gdf osm drop_untagged
   \<and> (read_relations to_datetime doc = Inr x \<longrightarrow>
        read_doc to_float to_datetime doc True drop_untagged =
        read_doc to_float to_datetime (without_relations doc) True drop_untagged)"
proof
  show "render_to_gdf (osm\<lparr>relmembers := rm, reltags := rt\<rparr>) drop_untagged
          = render_to_gdf osm drop_untagged"
    by (rule render_to_gdf_reads) simp_all
next
  show "read_relations to_datetime doc = Inr x \<longrightarrow>
        read_doc to_float to_datetime doc True drop_untagged =
        read_doc to_float to_datetime (without_relations doc) True drop_untagged"
  proof
    assume r: "read_relations to_datetime doc = Inr x"
    obtain rm' rt' where x: "x = (rm', rt')" by (cases x)
    have same: "render_to_gdf \<lparr>nodes = ns, waynodes = wn, waytags = wt, relmembers = rm', reltags = rt'\<rparr> drop_untagged
        = render_to_gdf \<lparr>nodes = ns, waynodes = wn, waytags = wt, relmembers = from_dict [], reltags = from_dict []\<rparr> drop_untagged"
      for ns wn wt :: "('f, 't) frame"
      by (rule render_to_gdf_reads) simp_all
    show "read_doc to_float to_datetime doc True drop_untagged =
        read_doc to_float to_datetime (without_relations doc) True drop_untagged"
      unfolding read_doc_def read_nodes_without_relations read_ways_without_relations
        read_relations_without_relations r x
      by (simp add: Let_def same split: sum.splits prod.splits)
  qed
qed

theorem relations_never_rendered_witness:
  "read_relations demo_datetime demo_doc =
     Inr ((from_dict
           [[(''type'', VStr ''way''), (''ref'', VStr ''10''), (''role'', VStr ''outer''),
             (''id'', VStr ''20''), (''index'', VInt 0)]] :: (string, string) frame),
          (from_dict [[(''id'', VStr ''20''), (''type'', VStr ''boundary'')]]
             :: (string, string) frame))
   \<and> read_doc demo_float demo_datetime demo_doc True True =
       read_doc demo_float demo_datetime (without_relations demo_doc) True True"
proof -
  have h: "read_relations demo_datetime demo_doc =
     Inr ((from_dict
           [[(''type'', VStr ''way''), (''ref'', VStr ''10''), (''role'', VStr ''outer''),
             (''id'', VStr ''20''), (''index'', VInt 0)]] :: (string, string) frame),
          (from_dict [[(''id'', VStr ''20''), (''type'', VStr ''boundary'')]]
             :: (string, string) frame))"
    by (simp add: read_relations_def read_linked_def demo_doc_def findall_def getitem_def
        link_dicts_def strs_def element_to_dict_def uninteresting_tags_def
        dict_to_dataframe_def from_dict_def)
  from h relations_never_rendered [where to_datetime = demo_datetime and doc = demo_doc
      and to_float = demo_float and drop_untagged = True]
  show ?thesis by blast
qed

subsection \<open>Documents that lack a kind of element\<close>

text \<open>
  C4. A document with no \<^verbatim>\<open>way\<close> elements gives two empty way tables, and one with no
  \<^verbatim>\<open>relation\<close> elements two empty relation tables. A document with no \<^verbatim>\<open>node\<close> element
  does not give an empty node table: \<^verbatim>\<open>read_nodes\<close> raises \<^verbatim>\<open>KeyError\<close> when it reads the
  column \<^verbatim>\<open>lon\<close> of the columnless frame, and the whole read fails with it.
\<close>

theorem no_nodes_is_an_error:
  "(findall ''node'' doc = [] \<longrightarrow>
      read_nodes to_float to_datetime doc = Inl KeyError
      \<and> read_doc to_float to_datetime doc render drop_untagged = Inl KeyError)
   \<and> (findall ''way'' doc = [] \<longrightarrow> read_ways to_datetime doc = Inr (from_dict [], from_dict []))
   \<and> (findall ''relation'' doc = [] \<longrightarrow>
        read_relations to_datetime doc = Inr (from_dict [], from_dict []))"
  by (simp add: read_doc_def read_nodes_def read_ways_def read_relations_def read_linked_def
      dict_to_dataframe_Nil astype_float_def from_dict_def)

theorem no_nodes_is_an_error_witness:
  "findall ''node'' (Element ''osm'' [] []) = []
   \<and> findall ''way'' (Element ''osm'' [] []) = []
   \<and> findall ''relation'' (Element ''osm'' [] []) = []
   \<and> read_nodes demo_float demo_datetime (Element ''osm'' [] []) = Inl KeyError
   \<and> read_doc demo_float demo_datetime (Element ''osm'' [] []) False True = Inl KeyError
   \<and> read_ways demo_datetime (Element ''osm'' [] [])
       = Inr ((from_dict [] :: (string, string) frame), (from_dict [] :: (string, string) frame))
   \<and> read_relations demo_datetime (Element ''osm'' [] [])
       = Inr ((from_dict [] :: (string, string) frame), (from_dict [] :: (string, string) frame))"
  using no_nodes_is_an_error [of "Element ''osm'' [] []" demo_float demo_datetime False True]
  by (simp add: findall_def)

subsection \<open>The element flattener\<close>

lemma overlay_tags_fold:
  "\<forall>t\<in>set ts. tag_kv t \<noteq> None \<Longrightarrow>
     overlay_tags ts d =
       Inr (fold (\<lambda>kv. AList.update (fst kv) (snd kv))
              (filter (\<lambda>kv. fst kv \<notin> uninteresting_tags) (List.map_filter tag_kv ts)) d)"
proof (induction ts arbitrary: d)
  case Nil
  show ?case by simp
next
  case (Cons t ts)
  from Cons.prems obtain k v
    where kv: "map_of (attrib t) ''k'' = Some k" "map_of (attrib t) ''v'' = Some v"
    by (auto simp: tag_kv_def split: option.splits)
  have rest: "\<forall>t\<in>set ts. tag_kv t \<noteq> None" using Cons.prems by simp
  show ?case
    by (simp add: kv getitem_def tag_kv_def Cons.IH [OF rest])
qed

lemma map_of_fold_update:
  "map_of (fold (\<lambda>kv. AList.update (fst kv) (snd kv)) kvs d) = map_of d ++ map_of (rev kvs)"
proof (induction kvs arbitrary: d)
  case Nil
  show ?case by simp
next
  case (Cons kv kvs)
  show ?case
    by (rule ext) (simp add: Cons.IH update_conv' map_add_def split: option.splits)
qed

text \<open>
  C7. For an element whose child \<^verbatim>\<open>tag\<close> elements all have a \<^verbatim>\<open>k\<close> and a \<^verbatim>\<open>v\<close>
  attribute, \<^verbatim>\<open>_element_to_dict\<close> returns one dictionary: the element's attributes
  overlaid with the kept (non-denylisted) tags, a tag winning over an attribute of the
  same name (and a later tag over an earlier one). With no tags the result is exactly the
  attributes. A node with the one tag \<^verbatim>\<open>highway=crossing\<close> keeps \<^verbatim>\<open>id\<close>, \<^verbatim>\<open>lat\<close> and
  \<^verbatim>\<open>lon\<close> unchanged and gains \<^verbatim>\<open>highway\<close> with the value \<^verbatim>\<open>crossing\<close>.
\<close>

theorem element_flattening:
  assumes "\<forall>t\<in>set (findall ''tag'' e). tag_kv t \<noteq> None"
  shows "(\<exists>d. element_to_dict e = Inr d
           \<and> map_of d = map_of (attrib e) ++ map_of (rev (kept_tags e))
           \<and> (findall ''tag'' e = [] \<longrightarrow> d = attrib e))
    \<and> element_to_dict
           (Element ''node'' [(''id'', i), (''lat'', lat), (''lon'', lon)]
              [Element ''tag'' [(''k'', ''highway''), (''v'', ''crossing'')] []])
         = Inr [(''id'', i), (''lat'', lat), (''lon'', lon), (''highway'', ''crossing'')]"
proof
  show "\<exists>d. element_to_dict e = Inr d
           \<and> map_of d = map_of (attrib e) ++ map_of (rev (kept_tags e))
           \<and> (findall ''tag'' e = [] \<longrightarrow> d = attrib e)"
    unfolding element_to_dict_def overlay_tags_fold [OF assms]
    by (auto simp: map_of_fold_update kept_tags_def)
  show "element_to_dict
           (Element ''node'' [(''id'', i), (''lat'', lat), (''lon'', lon)]
              [Element ''tag'' [(''k'', ''highway''), (''v'', ''crossing'')] []])
         = Inr [(''id'', i), (''lat'', lat), (''lon'', lon), (''highway'', ''crossing'')]"
    by (simp add: element_to_dict_def findall_def getitem_def uninteresting_tags_def)
qed

theorem element_flattening_witness:
  "map tag_kv (findall ''tag'' demo_node)
     = [Some (''highway'', ''crossing''), Some (''source'', ''Bing''), Some (''lat'', ''north'')]
   \<and> kept_tags demo_node = [(''highway'', ''crossing''), (''lat'', ''north'')]
   \<and> (\<exists>d. element_to_dict demo_node = Inr d
         \<and> map_of d = [''id'' \<mapsto> ''1'', ''lon'' \<mapsto> ''-71.0'', ''highway'' \<mapsto> ''crossing'',
                        ''lat'' \<mapsto> ''north''])"
proof -
  have h: "\<forall>t\<in>set (findall ''tag'' demo_node). tag_kv t \<noteq> None"
    by (simp add: demo_node_def findall_def tag_kv_def)
  have k: "kept_tags demo_node = [(''highway'', ''crossing''), (''lat'', ''north'')]"
    by (simp add: kept_tags_def demo_node_def findall_def tag_kv_def
        uninteresting_tags_def)
  have m: "map_of (attrib demo_node) ++ map_of (rev (kept_tags demo_node))
      = [''id'' \<mapsto> ''1'', ''lon'' \<mapsto> ''-71.0'', ''highway'' \<mapsto> ''crossing'', ''lat'' \<mapsto> ''north'']"
    unfolding k by (rule ext) (simp add: demo_node_def map_add_def)
  from element_flattening [OF h] obtain d where "element_to_dict demo_node = Inr d"
    "map_of d = map_of (attrib demo_node) ++ map_of (rev (kept_tags demo_node))"
    by blast
  moreover have "map tag_kv (findall ''tag'' demo_node)
     = [Some (''highway'', ''crossing''), Some (''source'', ''Bing''), Some (''lat'', ''north'')]"
    by (simp add: demo_node_def findall_def tag_kv_def)
  ultimately show ?thesis using k m by auto
qed

subsection \<open>Facts about the table builder\<close>

lemma sequence_err_map_Inr: "sequence_err (map Inr ys) = Inr ys"
  by (induction ys) simp_all

lemma sequence_err_Inr: "sequence_err xs = Inr ys \<longleftrightarrow> xs = map Inr ys"
proof
  show "sequence_err xs = Inr ys \<Longrightarrow> xs = map Inr ys"
    by (induction xs arbitrary: ys) (auto split: sum.splits)
  show "xs = map Inr ys \<Longrightarrow> sequence_err xs = Inr ys"
    by (simp add: sequence_err_map_Inr)
qed

lemma isl_case_sum_Inr: "isl (case x of Inl e \<Rightarrow> Inl e | Inr v \<Rightarrow> Inr (g v)) = isl x"
  by (cases x) simp_all

lemma sequence_err_isl: "isl (sequence_err xs) \<longleftrightarrow> (\<exists>x\<in>set xs. isl x)"
  by (induction xs) (auto split: sum.splits)

lemma convert_column_Inr:
  assumes "convert_column f c df = Inr df'"
  shows "columns df' = columns df"
    and "list_all2 (\<lambda>r r'. f (r c) = Inr (r' c) \<and> (\<forall>c'. c' \<noteq> c \<longrightarrow> r' c' = r c')) (rows df) (rows df')"
proof -
  from assms obtain rs
    where rs: "map (\<lambda>r. case f (r c) of Inl e \<Rightarrow> Inl e | Inr v \<Rightarrow> Inr (r(c := v))) (rows df) = map Inr rs"
      and df': "df' = df\<lparr>rows := rs\<rparr>"
    by (auto simp: convert_column_def sequence_err_Inr split: sum.splits)
  show "columns df' = columns df" by (simp add: df')
  have "list_all2 (\<lambda>r r'. (case f (r c) of Inl e \<Rightarrow> Inl e | Inr v \<Rightarrow> Inr (r(c := v))) = Inr r') (rows df) rs"
    using rs by (simp add: list_all2_conv_all_nth list_eq_iff_nth_eq)
  then show "list_all2 (\<lambda>r r'. f (r c) = Inr (r' c) \<and> (\<forall>c'. c' \<noteq> c \<longrightarrow> r' c' = r c')) (rows df) (rows df')"
    unfolding df' by (auto elim!: list_all2_mono split: sum.splits)
qed

lemma convert_column_isl:
  "isl (convert_column f c df) \<longleftrightarrow> (\<exists>r\<in>set (rows df). isl (f (r c)))"
  by (simp add: convert_column_def isl_case_sum_Inr sequence_err_isl)

lemma set_columns_from_dict: "set (columns (from_dict ds)) = (\<Union>d\<in>set ds. fst ` set d)"
  by (auto simp: from_dict_def)

lemma rows_from_dict: "rows (from_dict ds) = map map_of ds"
  by (simp add: from_dict_def)

lemma map_of_None_if_no_column:
  "c \<notin> set (columns (from_dict ds)) \<Longrightarrow> d \<in> set ds \<Longrightarrow> map_of d c = None"
  by (force simp: set_columns_from_dict map_of_eq_None_iff)

lemma dict_to_dataframe_Inr:
  assumes "dict_to_dataframe td ds = Inr df"
  shows "columns df = columns (from_dict ds)"
    and "list_all2 (\<lambda>d r. to_datetime_cell td (map_of d ''timestamp'') = Inr (r ''timestamp'')
                         \<and> (\<forall>c. c \<noteq> ''timestamp'' \<longrightarrow> r c = map_of d c)) ds (rows df)"
proof -
  show "columns df = columns (from_dict ds)"
    using assms by (auto simp: dict_to_dataframe_def Let_def convert_column_Inr(1) split: if_splits)
  show "list_all2 (\<lambda>d r. to_datetime_cell td (map_of d ''timestamp'') = Inr (r ''timestamp'')
                         \<and> (\<forall>c. c \<noteq> ''timestamp'' \<longrightarrow> r c = map_of d c)) ds (rows df)"
  proof (cases "''timestamp'' \<in> set (columns (from_dict ds))")
    case True
    with assms have "convert_column (to_datetime_cell td) ''timestamp'' (from_dict ds) = Inr df"
      by (simp add: dict_to_dataframe_def Let_def)
    from convert_column_Inr(2) [OF this]
    have "list_all2 (\<lambda>r r'. to_datetime_cell td (r ''timestamp'') = Inr (r' ''timestamp'')
              \<and> (\<forall>c'. c' \<noteq> ''timestamp'' \<longrightarrow> r' c' = r c')) (map map_of ds) (rows df)"
      by (simp add: rows_from_dict)
    then show ?thesis by (simp add: list_all2_map1)
  next
    case False
    with assms have df: "df = from_dict ds"
      by (simp add: dict_to_dataframe_def Let_def)
    have "\<forall>d\<in>set ds. map_of d ''timestamp'' = None"
      using False by (auto dest: map_of_None_if_no_column)
    then show ?thesis
      by (simp add: df rows_from_dict list_all2_map2 list_all2_same)
  qed
qed

lemma dict_to_dataframe_isl:
  assumes "d \<in> set ds" and "isl (to_datetime_cell td (map_of d ''timestamp''))"
  shows "isl (dict_to_dataframe td ds)"
proof -
  from assms(2) have "map_of d ''timestamp'' \<noteq> None" by (cases "map_of d ''timestamp''") auto
  then have "''timestamp'' \<in> fst ` set d" by (simp add: map_of_eq_None_iff)
  with assms(1) have "''timestamp'' \<in> set (columns (from_dict ds))"
    by (auto simp: set_columns_from_dict)
  then show ?thesis
    using assms by (auto simp: dict_to_dataframe_def Let_def convert_column_isl rows_from_dict)
qed

lemma map_of_strs: "map_of (strs d) k = map_option VStr (map_of d k)"
  by (induction d) (auto simp: strs_def)

lemma keys_strs: "fst ` set (strs d) = fst ` set d"
  by (force simp: strs_def)

lemma list_all2_setD1: "list_all2 P xs ys \<Longrightarrow> x \<in> set xs \<Longrightarrow> \<exists>y\<in>set ys. P x y"
  by (induction xs ys rule: list_all2_induct) auto

lemma list_all2_setD2: "list_all2 P xs ys \<Longrightarrow> y \<in> set ys \<Longrightarrow> \<exists>x\<in>set xs. P x y"
  by (induction xs ys rule: list_all2_induct) auto

lemma list_all2_map_eq:
  "list_all2 (\<lambda>d r. f r = g d) ds rs \<Longrightarrow> map f rs = map g ds"
  by (induction ds rs rule: list_all2_induct) simp_all

subsection \<open>The way table reader\<close>

lemma read_loop_Inr:
  assumes "read_loop child xs links tags = Inr (links', tags')"
  shows "links' = links @ concat (map (\<lambda>x. link_dicts (the (map_of (attrib x) ''id'')) (findall child x)) xs)"
    and "list_all2 (\<lambda>x d. \<exists>d0. element_to_dict x = Inr d0 \<and> d = strs d0) xs (drop (length tags) tags')"
    and "take (length tags) tags' = tags"
    and "\<forall>x\<in>set xs. map_of (attrib x) ''id'' \<noteq> None"
  using assms
proof (induction xs arbitrary: links tags)
  case Nil
  { case 1 then show ?case by simp }
  { case 2 then show ?case by simp }
  { case 3 then show ?case by simp }
  { case 4 then show ?case by simp }
next
  case (Cons x xs)
  { case 1
    then show ?case
      by (auto simp: getitem_def Let_def split: option.splits sum.splits dest!: Cons.IH(1)) }
  { case 2
    from 2 obtain i d0 where i: "map_of (attrib x) ''id'' = Some i" and d0: "element_to_dict x = Inr d0"
      and rest: "read_loop child xs (links @ link_dicts i (findall child x)) (tags @ [strs d0]) = Inr (links', tags')"
      by (auto simp: getitem_def Let_def split: option.splits sum.splits)
    from Cons.IH(2) [OF rest] Cons.IH(3) [OF rest]
    have a: "list_all2 (\<lambda>x d. \<exists>d0. element_to_dict x = Inr d0 \<and> d = strs d0) xs (drop (Suc (length tags)) tags')"
      and b: "take (Suc (length tags)) tags' = tags @ [strs d0]" by simp_all
    from b have len: "length tags < length tags'"
      by (metis length_append_singleton length_take lessI min_less_iff_conj)
    from b have "tags' ! length tags = strs d0"
      by (metis len lessI nth_append_length nth_take)
    then have "drop (length tags) tags' = strs d0 # drop (Suc (length tags)) tags'"
      using len by (simp add: Cons_nth_drop_Suc [symmetric])
    then show ?case using a d0 by simp }
  { case 3
    from 3 obtain i d0 where i: "map_of (attrib x) ''id'' = Some i" and d0: "element_to_dict x = Inr d0"
      and rest: "read_loop child xs (links @ link_dicts i (findall child x)) (tags @ [strs d0]) = Inr (links', tags')"
      by (auto simp: getitem_def Let_def split: option.splits sum.splits)
    from Cons.IH(3) [OF rest]
    have b: "take (Suc (length tags)) tags' = tags @ [strs d0]" by simp
    then show ?case
      by (metis append_eq_conv_conj length_append_singleton lessI less_or_eq_imp_le take_all_iff take_take min.absorb1 butlast_snoc butlast_take diff_Suc_1) }
  { case 4
    then show ?case
      by (auto simp: getitem_def Let_def split: option.splits sum.splits dest!: Cons.IH(4)) }
qed

lemma link_dicts_cells:
  "map_of (attrib w) ''id'' \<noteq> None \<Longrightarrow>
   map (\<lambda>d. (map_of d ''id'', map_of d ''index'', map_of d ''ref''))
     (link_dicts (the (map_of (attrib w) ''id'')) (findall ''nd'' w)) = way_link_cells w"
  by (auto simp: link_dicts_def way_link_cells_def update_conv' map_of_strs)

text \<open>
  C2. When \<^verbatim>\<open>read_ways\<close> returns the tables WayNodes and WayTags: the rows of WayNodes,
  read at \<^verbatim>\<open>id\<close>, \<^verbatim>\<open>index\<close> and \<^verbatim>\<open>ref\<close>, are the way elements' blocks one after the
  other in document order; the block of a way with N \<^verbatim>\<open>nd\<close> children has N rows, numbered
  0 to N-1 in the children's order, each with the way's id and the child's \<^verbatim>\<open>ref\<close> (no row
  for a way with no child). WayTags has exactly one row per way element, in document
  order, holding the way's flattened dictionary. Every way element read has an id.
\<close>

theorem way_table_reader:
  assumes "read_ways to_datetime doc = Inr (wn, wt)"
  shows "map (\<lambda>r. (r ''id'', r ''index'', r ''ref'')) (rows wn)
           = concat (map way_link_cells (findall ''way'' doc))
       \<and> list_all2 (\<lambda>w r. \<exists>d. element_to_dict w = Inr d
                            \<and> (\<forall>c. c \<noteq> ''timestamp'' \<longrightarrow> r c = map_option VStr (map_of d c)))
           (findall ''way'' doc) (rows wt)
       \<and> (\<forall>w\<in>set (findall ''way'' doc). map_of (attrib w) ''id'' \<noteq> None)"
proof -
  from assms obtain links tags
    where loop: "read_loop ''nd'' (findall ''way'' doc) [] [] = Inr (links, tags)"
      and wn: "dict_to_dataframe to_datetime links = Inr wn"
      and wt: "dict_to_dataframe to_datetime tags = Inr wt"
    by (auto simp: read_ways_def read_linked_def split: sum.splits prod.splits)
  have ids: "\<forall>w\<in>set (findall ''way'' doc). map_of (attrib w) ''id'' \<noteq> None"
    using read_loop_Inr(4) [OF loop] .
  have links: "links = concat (map (\<lambda>x. link_dicts (the (map_of (attrib x) ''id'')) (findall ''nd'' x))
      (findall ''way'' doc))"
    using read_loop_Inr(1) [OF loop] by simp
  have "list_all2 (\<lambda>d r. (r ''id'', r ''index'', r ''ref'') = (map_of d ''id'', map_of d ''index'', map_of d ''ref''))
      links (rows wn)"
    using dict_to_dataframe_Inr(2) [OF wn] by (rule list_all2_mono) simp
  then have "map (\<lambda>r. (r ''id'', r ''index'', r ''ref'')) (rows wn)
      = map (\<lambda>d. (map_of d ''id'', map_of d ''index'', map_of d ''ref'')) links"
    by (rule list_all2_map_eq)
  also have "\<dots> = concat (map way_link_cells (findall ''way'' doc))"
    unfolding links map_concat using ids
    by (auto simp: comp_def link_dicts_cells intro!: arg_cong [where f = concat])
  finally have first: "map (\<lambda>r. (r ''id'', r ''index'', r ''ref'')) (rows wn)
           = concat (map way_link_cells (findall ''way'' doc))" .
  have "list_all2 (\<lambda>x d. \<exists>d0. element_to_dict x = Inr d0 \<and> d = strs d0) (findall ''way'' doc) tags"
    using read_loop_Inr(2) [OF loop] by simp
  moreover have "list_all2 (\<lambda>d r. \<forall>c. c \<noteq> ''timestamp'' \<longrightarrow> r c = map_of d c) tags (rows wt)"
    using dict_to_dataframe_Inr(2) [OF wt] by (rule list_all2_mono) simp
  ultimately have second: "list_all2 (\<lambda>w r. \<exists>d. element_to_dict w = Inr d
                            \<and> (\<forall>c. c \<noteq> ''timestamp'' \<longrightarrow> r c = map_option VStr (map_of d c)))
           (findall ''way'' doc) (rows wt)"
    by (auto simp: list_all2_conv_all_nth map_of_strs)
  from first second ids show ?thesis by blast
qed

theorem way_table_reader_witness:
  "read_ways demo_datetime demo_doc =
     Inr ((from_dict
            [[(''ref'', VStr ''3''), (''id'', VStr ''10''), (''index'', VInt 0)],
             [(''ref'', VStr ''1''), (''id'', VStr ''10''), (''index'', VInt 1)],
             [(''ref'', VStr ''2''), (''id'', VStr ''10''), (''index'', VInt 2)]] :: (string, string) frame),
          (from_dict
            [[(''id'', VStr ''10''), (''name'', VStr ''Centre Street'')], [(''id'', VStr ''11'')]]
             :: (string, string) frame))
   \<and> concat (map way_link_cells (findall ''way'' demo_doc))
       = [(Some (VStr ''10''), Some (VInt 0), Some (VStr ''3'')),
          (Some (VStr ''10''), Some (VInt 1), Some (VStr ''1'')),
          (Some (VStr ''10''), Some (VInt 2), Some (VStr ''2'') :: (string, string) val option)]
   \<and> length (rows (from_dict
            [[(''id'', VStr ''10''), (''name'', VStr ''Centre Street'')], [(''id'', VStr ''11'')]]
             :: (string, string) frame)) = length (findall ''way'' demo_doc)"
proof -
  have h: "read_ways demo_datetime demo_doc =
     Inr ((from_dict
            [[(''ref'', VStr ''3''), (''id'', VStr ''10''), (''index'', VInt 0)],
             [(''ref'', VStr ''1''), (''id'', VStr ''10''), (''index'', VInt 1)],
             [(''ref'', VStr ''2''), (''id'', VStr ''10''), (''index'', VInt 2)]] :: (string, string) frame),
          (from_dict
            [[(''id'', VStr ''10''), (''name'', VStr ''Centre Street'')], [(''id'', VStr ''11'')]]
             :: (string, string) frame))"
    by (simp add: read_ways_def read_linked_def demo_doc_def findall_def getitem_def
        link_dicts_def strs_def element_to_dict_def uninteresting_tags_def
        dict_to_dataframe_def from_dict_def enumerate_eq_zip upt_rec numeral_2_eq_2)
  have c: "concat (map way_link_cells (findall ''way'' demo_doc))
       = [(Some (VStr ''10''), Some (VInt 0), Some (VStr ''3'')),
          (Some (VStr ''10''), Some (VInt 1), Some (VStr ''1'')),
          (Some (VStr ''10''), Some (VInt 2), Some (VStr ''2'') :: (string, string) val option)]"
    by (simp add: way_link_cells_def demo_doc_def findall_def)
  from way_table_reader [OF h] have "length (rows (from_dict
            [[(''id'', VStr ''10''), (''name'', VStr ''Centre Street'')], [(''id'', VStr ''11'')]]
             :: (string, string) frame)) = length (findall ''way'' demo_doc)"
    by (auto dest: list_all2_lengthD)
  with h c show ?thesis by simp
qed

subsection \<open>Coercion failures\<close>

lemma astype_float_isl:
  "r \<in> set (rows df) \<Longrightarrow> r c = Some (VStr s) \<Longrightarrow> to_float s = Unparsable \<Longrightarrow>
     isl (astype_float to_float c df)"
  by (auto simp: astype_float_def convert_column_isl intro!: bexI [of _ r])

lemma astype_float_Inr:
  assumes "astype_float to_float c df = Inr df'"
  shows "columns df' = columns df"
    and "list_all2 (\<lambda>r r'. astype_float_cell to_float (r c) = Inr (r' c) \<and> (\<forall>c'. c' \<noteq> c \<longrightarrow> r' c' = r c'))
           (rows df) (rows df')"
    and "c \<in> set (columns df)"
  using assms by (auto simp: astype_float_def dest: convert_column_Inr split: if_splits)

lemma read_nodes_bad_float:
  fixes to_float :: "string \<Rightarrow> 'f conv" and to_datetime :: "string \<Rightarrow> 't conv"
  assumes n: "n \<in> set (findall ''node'' doc)" and d: "element_to_dict n = Inr d"
    and c: "c = ''lon'' \<or> c = ''lat''" and s: "map_of d c = Some s" and bad: "to_float s = Unparsable"
  shows "isl (read_nodes to_float to_datetime doc)"
proof (cases "sequence_err (map element_to_dict (findall ''node'' doc))")
  case (Inl e)
  then show ?thesis by (simp add: read_nodes_def)
next
  case (Inr ds)
  then have eq: "map element_to_dict (findall ''node'' doc) = map Inr ds"
    by (simp add: sequence_err_Inr)
  have "element_to_dict n \<in> set (map element_to_dict (findall ''node'' doc))"
    using n by simp
  then have "d \<in> set ds" unfolding eq d by auto
  then have dm: "strs d \<in> set (map strs ds)" by simp
  show ?thesis
  proof (cases "dict_to_dataframe to_datetime (map strs ds) :: error + ('f, 't) frame")
    case (Inl e)
    with Inr show ?thesis by (simp add: read_nodes_def)
  next
    case df: (Inr df)
    have ct: "c \<noteq> ''timestamp''" using c by auto
    from list_all2_setD1 [OF dict_to_dataframe_Inr(2) [OF df] dm]
    obtain r where r1: "r \<in> set (rows df)"
      and r2: "\<forall>c. c \<noteq> ''timestamp'' \<longrightarrow> r c = map_of (strs d) c"
      by blast
    from r2 ct s have r3: "r c = Some (VStr s)" by (simp add: map_of_strs)
    note r = r1 r3
    show ?thesis
    proof (cases "astype_float to_float ''lon'' df")
      case (Inl e)
      with Inr df show ?thesis by (simp add: read_nodes_def)
    next
      case df': (Inr df')
      have "c \<noteq> ''lon''"
        using astype_float_isl [of r df c s to_float, OF r bad] df' by auto
      with c have clat: "c = ''lat''" by simp
      from list_all2_setD1 [OF astype_float_Inr(2) [OF df'] r(1)]
      obtain r' where r'1: "r' \<in> set (rows df')"
        and r'2: "\<forall>c'. c' \<noteq> ''lon'' \<longrightarrow> r' c' = r c'"
        by blast
      from r'2 r(2) clat have "r' ''lat'' = Some (VStr s)" by simp
      note this = r'1 this
      from astype_float_isl [of r' df' "''lat''" s to_float, OF this bad] Inr df df' show ?thesis
        by (simp add: read_nodes_def)
    qed
  qed
qed

lemma read_nodes_bad_timestamp:
  fixes to_float :: "string \<Rightarrow> 'f conv" and to_datetime :: "string \<Rightarrow> 't conv"
  assumes n: "n \<in> set (findall ''node'' doc)" and d: "element_to_dict n = Inr d"
    and s: "map_of d ''timestamp'' = Some s" and bad: "to_datetime s = Unparsable"
  shows "isl (read_nodes to_float to_datetime doc)"
proof (cases "sequence_err (map element_to_dict (findall ''node'' doc))")
  case (Inl e)
  then show ?thesis by (simp add: read_nodes_def)
next
  case (Inr ds)
  then have eq: "map element_to_dict (findall ''node'' doc) = map Inr ds"
    by (simp add: sequence_err_Inr)
  have "element_to_dict n \<in> set (map element_to_dict (findall ''node'' doc))"
    using n by simp
  then have "d \<in> set ds" unfolding eq d by auto
  then have dm: "strs d \<in> set (map strs ds)" by simp
  have "isl (dict_to_dataframe to_datetime (map strs ds) :: error + ('f, 't) frame)"
    using dm by (rule dict_to_dataframe_isl) (simp add: map_of_strs s bad)
  with Inr show ?thesis by (auto simp: read_nodes_def split: sum.splits)
qed

lemma read_linked_bad_timestamp:
  assumes x: "x \<in> set (findall kind doc)" and d: "element_to_dict x = Inr d"
    and s: "map_of d ''timestamp'' = Some s" and bad: "to_datetime s = Unparsable"
  shows "isl (read_linked kind child to_datetime doc :: error + ('f, 't) frame \<times> ('f, 't) frame)"
proof (cases "read_loop child (findall kind doc) [] [] :: error + (string \<times> ('f, 't) val) list list \<times> (string \<times> ('f, 't) val) list list")
  case (Inl e)
  then show ?thesis by (simp add: read_linked_def)
next
  case (Inr p)
  obtain links tags where p: "p = (links, tags)" by (cases p)
  from read_loop_Inr(2) [OF Inr [unfolded p]] x d have "strs d \<in> set tags"
    by (auto dest!: list_all2_setD1 [where x = x])
  then have "isl (dict_to_dataframe to_datetime tags :: error + ('f, 't) frame)"
    by (rule dict_to_dataframe_isl) (simp add: map_of_strs s bad)
  with Inr p show ?thesis by (auto simp: read_linked_def split: sum.splits)
qed

text \<open>
  C8. A node whose \<^verbatim>\<open>lon\<close> or \<^verbatim>\<open>lat\<close> value the float conversion rejects, or whose
  \<^verbatim>\<open>timestamp\<close> the date-time conversion rejects, makes \<^verbatim>\<open>read_nodes\<close> raise; a way or
  relation with such a timestamp makes its reader raise; any list of records with such a
  timestamp makes \<^verbatim>\<open>_dict_to_dataframe\<close> raise; and a reader that raises makes the whole
  read raise: no table is returned.
\<close>

theorem coercion_failure_raises:
  fixes to_float :: "string \<Rightarrow> 'f conv" and to_datetime :: "string \<Rightarrow> 't conv"
    and ds :: "(string \<times> ('f, 't) val) list list"
  shows "(n \<in> set (findall ''node'' doc) \<and> element_to_dict n = Inr d
            \<and> (map_of d ''lon'' = Some s \<or> map_of d ''lat'' = Some s) \<and> to_float s = Unparsable
          \<longrightarrow> isl (read_nodes to_float to_datetime doc))
       \<and> (n \<in> set (findall ''node'' doc) \<and> element_to_dict n = Inr d
            \<and> map_of d ''timestamp'' = Some s \<and> to_datetime s = Unparsable
          \<longrightarrow> isl (read_nodes to_float to_datetime doc))
       \<and> (x \<in> set (findall kind doc) \<and> element_to_dict x = Inr d
            \<and> map_of d ''timestamp'' = Some s \<and> to_datetime s = Unparsable
          \<longrightarrow> isl (read_linked kind child to_datetime doc :: error + ('f, 't) frame \<times> ('f, 't) frame))
       \<and> (d' \<in> set ds \<and> map_of d' ''timestamp'' = Some (VStr s) \<and> to_datetime s = Unparsable
          \<longrightarrow> isl (dict_to_dataframe to_datetime ds))
       \<and> (isl (read_nodes to_float to_datetime doc)
            \<or> isl (read_ways to_datetime doc :: error + ('f, 't) frame \<times> ('f, 't) frame)
            \<or> isl (read_relations to_datetime doc :: error + ('f, 't) frame \<times> ('f, 't) frame)
          \<longrightarrow> isl (read_doc to_float to_datetime doc render drop_untagged))"
proof (intro conjI impI)
  assume "n \<in> set (findall ''node'' doc) \<and> element_to_dict n = Inr d
            \<and> (map_of d ''lon'' = Some s \<or> map_of d ''lat'' = Some s) \<and> to_float s = Unparsable"
  then show "isl (read_nodes to_float to_datetime doc)"
    using read_nodes_bad_float [of n doc d "''lon''" s to_float to_datetime]
      read_nodes_bad_float [of n doc d "''lat''" s to_float to_datetime] by blast
next
  assume "n \<in> set (findall ''node'' doc) \<and> element_to_dict n = Inr d
            \<and> map_of d ''timestamp'' = Some s \<and> to_datetime s = Unparsable"
  then show "isl (read_nodes to_float to_datetime doc)"
    using read_nodes_bad_timestamp by blast
next
  assume "x \<in> set (findall kind doc) \<and> element_to_dict x = Inr d
            \<and> map_of d ''timestamp'' = Some s \<and> to_datetime s = Unparsable"
  then show "isl (read_linked kind child to_datetime doc :: error + ('f, 't) frame \<times> ('f, 't) frame)"
    using read_linked_bad_timestamp by blast
next
  assume "d' \<in> set ds \<and> map_of d' ''timestamp'' = Some (VStr s) \<and> to_datetime s = Unparsable"
  then show "isl (dict_to_dataframe to_datetime ds)"
    by (auto intro!: dict_to_dataframe_isl [of d'])
next
  assume "isl (read_nodes to_float to_datetime doc)
            \<or> isl (read_ways to_datetime doc :: error + ('f, 't) frame \<times> ('f, 't) frame)
            \<or> isl (read_relations to_datetime doc :: error + ('f, 't) frame \<times> ('f, 't) frame)"
  then show "isl (read_doc to_float to_datetime doc render drop_untagged)"
    by (auto simp: read_doc_def split: sum.splits)
qed

theorem coercion_failure_raises_witness:
  "demo_bad_node \<in> set (findall ''node'' demo_bad_doc)
   \<and> element_to_dict demo_bad_node = Inr (attrib demo_bad_node)
   \<and> map_of (attrib demo_bad_node) ''lat'' = Some ''north''
   \<and> map_of (attrib demo_bad_node) ''timestamp'' = Some ''north''
   \<and> demo_float ''north'' = Unparsable \<and> demo_datetime ''north'' = Unparsable
   \<and> isl (read_nodes demo_float demo_datetime demo_bad_doc)
   \<and> isl (read_linked ''node'' ''nd'' demo_datetime demo_bad_doc
           :: error + (string, string) frame \<times> (string, string) frame)
   \<and> isl (dict_to_dataframe demo_datetime [[(''timestamp'', VStr ''north'')]]
           :: error + (string, string) frame)
   \<and> isl (read_doc demo_float demo_datetime demo_bad_doc True True)"
proof -
  have h1: "demo_bad_node \<in> set (findall ''node'' demo_bad_doc)"
    by (simp add: demo_bad_doc_def demo_bad_node_def findall_def)
  have h2: "element_to_dict demo_bad_node = Inr (attrib demo_bad_node)"
    by (simp add: demo_bad_node_def element_to_dict_def findall_def)
  have h3: "map_of (attrib demo_bad_node) ''lat'' = Some ''north''"
    and h4: "map_of (attrib demo_bad_node) ''timestamp'' = Some ''north''"
    by (simp_all add: demo_bad_node_def)
  have h5: "demo_float ''north'' = Unparsable" "demo_datetime ''north'' = Unparsable"
    by (simp_all add: demo_float_def demo_datetime_def)
  have h6: "[(''timestamp'', VStr ''north'')] \<in> set [[(''timestamp'', VStr ''north'')]]"
    "map_of [(''timestamp'', VStr ''north'')] ''timestamp'' = Some (VStr ''north'')"
    by simp_all
  from coercion_failure_raises [of demo_bad_node demo_bad_doc "attrib demo_bad_node" "''north''"
      demo_float demo_datetime demo_bad_node "''node''" "''nd''"
      "[(''timestamp'', VStr ''north'')]" "[[(''timestamp'', VStr ''north'')]]" True True]
    h1 h2 h3 h4 h5 h6
  show ?thesis by simp
qed

subsection \<open>The columns of the tables and of the rendered frame\<close>

lemma overlay_tags_keys:
  "overlay_tags ts d = Inr d' \<Longrightarrow> fst ` set d' \<subseteq> fst ` set d \<union> - uninteresting_tags"
proof (induction ts arbitrary: d)
  case Nil
  then show ?case by auto
next
  case (Cons t ts)
  show ?case
  proof (cases "getitem (attrib t) ''k''")
    case (Inl e)
    with Cons.prems show ?thesis by simp
  next
    case k: (Inr k)
    show ?thesis
    proof (cases "k \<in> uninteresting_tags")
      case True
      with Cons.prems k have "overlay_tags ts d = Inr d'" by simp
      then show ?thesis by (rule Cons.IH)
    next
      case False
      with Cons.prems k obtain v where "overlay_tags ts (AList.update k v d) = Inr d'"
        by (auto split: sum.splits)
      from Cons.IH [OF this] False show ?thesis
        by (auto simp: dom_update)
    qed
  qed
qed

lemma element_to_dict_keys:
  "element_to_dict e = Inr d \<Longrightarrow> fst ` set d \<subseteq> fst ` set (attrib e) \<union> - uninteresting_tags"
  unfolding element_to_dict_def by (rule overlay_tags_keys)

lemma read_nodes_columns:
  assumes "read_nodes to_float to_datetime doc = Inr ns"
  shows "set (columns ns) \<subseteq> (\<Union>n\<in>set (findall ''node'' doc). fst ` set (attrib n)) \<union> - uninteresting_tags"
proof -
  from assms obtain ds df df'
    where ds: "sequence_err (map element_to_dict (findall ''node'' doc)) = Inr ds"
      and df: "dict_to_dataframe to_datetime (map strs ds) = Inr df"
      and df': "astype_float to_float ''lon'' df = Inr df'"
      and ns: "astype_float to_float ''lat'' df' = Inr ns"
    by (auto simp: read_nodes_def split: sum.splits)
  have cols: "set (columns ns) = (\<Union>d\<in>set ds. fst ` set d)"
    using astype_float_Inr(1) [OF ns] astype_float_Inr(1) [OF df'] dict_to_dataframe_Inr(1) [OF df]
    by (simp add: set_columns_from_dict keys_strs)
  from ds have eq: "map element_to_dict (findall ''node'' doc) = map Inr ds"
    by (simp add: sequence_err_Inr)
  have ex: "\<exists>n\<in>set (findall ''node'' doc). element_to_dict n = Inr d" if "d \<in> set ds" for d
  proof -
    from that have "Inr d \<in> set (map element_to_dict (findall ''node'' doc))"
      unfolding eq by simp
    then show ?thesis by auto
  qed
  show ?thesis unfolding cols
  proof
    fix k assume "k \<in> (\<Union>d\<in>set ds. fst ` set d)"
    then obtain d where d: "d \<in> set ds" "k \<in> fst ` set d" by blast
    from ex [OF d(1)] obtain n where n: "n \<in> set (findall ''node'' doc)" "element_to_dict n = Inr d"
      by blast
    from element_to_dict_keys [OF n(2)] d(2) n(1)
    show "k \<in> (\<Union>n\<in>set (findall ''node'' doc). fst ` set (attrib n)) \<union> - uninteresting_tags"
      by blast
  qed
qed

lemma link_dicts_keys:
  "d \<in> set (link_dicts ownerid cs) \<Longrightarrow>
     fst ` set d \<subseteq> (\<Union>c\<in>set cs. fst ` set (attrib c)) \<union> {''id'', ''index''}"
proof -
  assume "d \<in> set (link_dicts ownerid cs)"
  then obtain i c where ic: "(i, c) \<in> set (enumerate 0 cs)"
    and d: "d = AList.update ''index'' (VInt i) (AList.update ''id'' (VStr ownerid) (strs (attrib c)))"
    by (auto simp: link_dicts_def)
  from ic have "c \<in> set cs" by (auto simp: in_set_enumerate_eq)
  moreover have "fst ` set d = {''index''} \<union> ({''id''} \<union> fst ` set (attrib c))"
    unfolding d by (simp only: dom_update keys_strs)
  ultimately show ?thesis by blast
qed

lemma read_linked_columns:
  assumes "read_linked kind child to_datetime doc = Inr (lf, tf)"
  shows "set (columns lf) \<subseteq>
           (\<Union>x\<in>set (findall kind doc). \<Union>c\<in>set (findall child x). fst ` set (attrib c)) \<union> {''id'', ''index''}"
    and "set (columns tf) \<subseteq> (\<Union>x\<in>set (findall kind doc). fst ` set (attrib x)) \<union> - uninteresting_tags"
proof -
  from assms obtain links tags
    where loop: "read_loop child (findall kind doc) [] [] = Inr (links, tags)"
      and lf: "dict_to_dataframe to_datetime links = Inr lf"
      and tf: "dict_to_dataframe to_datetime tags = Inr tf"
    by (auto simp: read_linked_def split: sum.splits prod.splits)
  have links: "links = concat (map (\<lambda>x. link_dicts (the (map_of (attrib x) ''id'')) (findall child x))
      (findall kind doc))"
    using read_loop_Inr(1) [OF loop] by simp
  show "set (columns lf) \<subseteq>
           (\<Union>x\<in>set (findall kind doc). \<Union>c\<in>set (findall child x). fst ` set (attrib c)) \<union> {''id'', ''index''}"
    unfolding dict_to_dataframe_Inr(1) [OF lf] set_columns_from_dict links
    by (auto dest!: link_dicts_keys)
  have t: "list_all2 (\<lambda>x d. \<exists>d0. element_to_dict x = Inr d0 \<and> d = strs d0) (findall kind doc) tags"
    using read_loop_Inr(2) [OF loop] by simp
  show "set (columns tf) \<subseteq> (\<Union>x\<in>set (findall kind doc). fst ` set (attrib x)) \<union> - uninteresting_tags"
    unfolding dict_to_dataframe_Inr(1) [OF tf] set_columns_from_dict
  proof
    fix k assume "k \<in> (\<Union>d\<in>set tags. fst ` set d)"
    then obtain d where d: "d \<in> set tags" "k \<in> fst ` set d" by blast
    from list_all2_setD2 [OF t d(1)] obtain x d0
      where x: "x \<in> set (findall kind doc)" "element_to_dict x = Inr d0" "d = strs d0" by blast
    from d(2) x(3) have "k \<in> fst ` set d0" by (simp add: keys_strs)
    with element_to_dict_keys [OF x(2)] x(1)
    show "k \<in> (\<Union>x\<in>set (findall kind doc). fst ` set (attrib x)) \<union> - uninteresting_tags"
      by blast
  qed
qed

lemma columns_set_geometry:
  "set (columns (set_geometry gs df)) = insert ''geometry'' (set (columns df))"
  by (auto simp: set_geometry_def)

lemma drop_columns_Inr:
  "drop_columns labels df = Inr df' \<Longrightarrow>
     set labels \<subseteq> set (columns df) \<and> set (columns df') = set (columns df) - set labels
     \<and> rows df' = map (\<lambda>r c. if c \<in> set labels then None else r c) (rows df)"
  by (auto simp: drop_columns_def drop_labels_def split: if_splits)

lemma render_nodes_Inr:
  assumes "render_nodes ns drop_untagged = Inr g"
  obtains ns1 points ns2
  where "columns ns1 = columns ns"
    and "rows ns1 = (if drop_untagged
                     then filter (\<lambda>r. \<exists>c\<in>set (columns ns) - {''id'', ''lon'', ''lat''}. r c \<noteq> None) (rows ns)
                     else rows ns)"
    and "drop_untagged \<longrightarrow> {''id'', ''lon'', ''lat''} \<subseteq> set (columns ns)"
    and "sequence_err (map (point_of (columns ns)) (rows ns1)) = Inr points"
    and "drop_columns [''lon'', ''lat''] ns1 = Inr ns2"
    and "g = set_geometry (map Some points) ns2"
proof (cases drop_untagged)
  case False
  with assms obtain points ns2
    where "sequence_err (map (point_of (columns ns)) (rows ns)) = Inr points"
      and "drop_columns [''lon'', ''lat''] ns = Inr ns2"
      and "g = set_geometry (map Some points) ns2"
    by (simp add: render_nodes_def split: sum.splits)
  with False show ?thesis by (intro that [of ns points ns2]) simp_all
next
  case True
  show ?thesis
  proof (cases "drop_labels [''id'', ''lon'', ''lat''] (columns ns)")
    case (Inl e)
    with True assms show ?thesis by (simp add: render_nodes_def)
  next
    case (Inr tagcols)
    then have sub: "{''id'', ''lon'', ''lat''} \<subseteq> set (columns ns)"
      and tc: "set tagcols = set (columns ns) - {''id'', ''lon'', ''lat''}"
      by (auto simp: drop_labels_def split: if_splits)
    from True Inr assms obtain points ns2
      where "sequence_err (map (point_of (columns ns)) (rows (dropna_all tagcols ns))) = Inr points"
        and "drop_columns [''lon'', ''lat''] (dropna_all tagcols ns) = Inr ns2"
        and "g = set_geometry (map Some points) ns2"
      by (simp add: render_nodes_def dropna_all_def split: sum.splits)
    with True sub tc show ?thesis
      by (intro that [of "dropna_all tagcols ns" points ns2]) (simp_all add: dropna_all_def)
  qed
qed

lemma render_nodes_columns:
  assumes "render_nodes ns drop_untagged = Inr g"
  shows "set (columns g) \<subseteq> set (columns ns) \<union> {''geometry''}"
proof -
  from assms obtain ns1 points ns2
    where ns1: "columns ns1 = columns ns"
      and ns2: "drop_columns [''lon'', ''lat''] ns1 = Inr ns2"
      and g: "g = set_geometry (map Some points) ns2"
    by (rule render_nodes_Inr)
  from drop_columns_Inr [OF ns2] show ?thesis
    unfolding g columns_set_geometry ns1 by auto
qed

lemma render_ways_Inr:
  assumes "render_ways ns wn wt = Inr (Some g)"
  obtains node_points merged way_lines
  where "select_columns [''id'', ''lon'', ''lat''] ns = Inr node_points"
    and "merge_frames wn node_points = Inr merged"
    and "groupby_apply merged = Inr way_lines"
    and "''id'' \<in> set (columns wt)"
    and "way_lines \<noteq> []"
    and "g = attach_lines way_lines wt"
proof (cases "select_columns [''id'', ''lon'', ''lat''] ns")
  case (Inl e)
  with assms show ?thesis by (simp add: render_ways_def split: if_splits)
next
  case np: (Inr node_points)
  show ?thesis
  proof (cases "merge_frames wn node_points")
    case (Inl e)
    with assms np show ?thesis by (simp add: render_ways_def split: if_splits)
  next
    case mg: (Inr merged)
    show ?thesis
    proof (cases "groupby_apply merged")
      case (Inl e)
      with assms np mg show ?thesis by (simp add: render_ways_def split: if_splits)
    next
      case wl: (Inr way_lines)
      from assms np mg wl have "''id'' \<in> set (columns wt)" "way_lines \<noteq> []"
        "g = attach_lines way_lines wt"
        by (simp_all add: render_ways_def split: if_splits)
      with np mg wl show ?thesis by (rule that)
    qed
  qed
qed

lemma columns_attach_lines:
  "''id'' \<in> set (columns wt) \<Longrightarrow>
     set (columns (attach_lines way_lines wt)) = insert ''geometry'' (set (columns wt))"
  by (auto simp: attach_lines_def Let_def columns_set_geometry)

lemma render_ways_columns:
  assumes "render_ways ns wn wt = Inr (Some g)"
  shows "set (columns g) \<subseteq> set (columns wt) \<union> {''geometry''}"
proof -
  from assms obtain way_lines where "''id'' \<in> set (columns wt)" "g = attach_lines way_lines wt"
    by (rule render_ways_Inr)
  then show ?thesis by (simp add: columns_attach_lines)
qed

lemma render_to_gdf_columns:
  assumes "render_to_gdf osm drop_untagged = Inr g"
  shows "set (columns g) \<subseteq> set (columns (nodes osm)) \<union> set (columns (waytags osm)) \<union> {''geometry''}"
proof (cases "render_nodes (nodes osm) drop_untagged")
  case (Inl e)
  with assms show ?thesis by (simp add: render_to_gdf_def)
next
  case p: (Inr points)
  show ?thesis
  proof (cases "render_ways (nodes osm) (waynodes osm) (waytags osm)")
    case (Inl e)
    with assms p show ?thesis by (simp add: render_to_gdf_def)
  next
    case (Inr w)
    show ?thesis
    proof (cases w)
      case None
      with Inr assms p have "g = points" by (simp add: render_to_gdf_def)
      with render_nodes_columns [OF p] show ?thesis by auto
    next
      case (Some ways)
      with Inr assms p have g: "g = append_frames points ways" by (simp add: render_to_gdf_def)
      from Inr Some have "render_ways (nodes osm) (waynodes osm) (waytags osm) = Inr (Some ways)"
        by simp
      from render_ways_columns [OF this] render_nodes_columns [OF p] show ?thesis
        unfolding g append_frames_def by auto
    qed
  qed
qed

text \<open>
  C3, as amended. The denylist is applied to the keys of child \<^verbatim>\<open>tag\<close> elements only.
  For every document in which no \<^verbatim>\<open>node\<close>, \<^verbatim>\<open>way\<close>, \<^verbatim>\<open>relation\<close>, \<^verbatim>\<open>nd\<close> or
  \<^verbatim>\<open>member\<close> element carries a denylisted key as a native attribute, no table and no
  rendered frame that the read returns has a denylisted column.
\<close>

theorem denylist_applies_to_tags:
  assumes "native_attribute_names doc \<inter> uninteresting_tags = {}"
    and "read_doc to_float to_datetime doc render drop_untagged = Inr out"
  shows "result_columns out \<inter> uninteresting_tags = {}"
proof -
  from assms(2) obtain ns wn wt rm rt
    where ns: "read_nodes to_float to_datetime doc = Inr ns"
      and w: "read_ways to_datetime doc = Inr (wn, wt)"
      and r: "read_relations to_datetime doc = Inr (rm, rt)"
      and out: "(if render
                 then (case render_to_gdf \<lparr>nodes = ns, waynodes = wn, waytags = wt, relmembers = rm, reltags = rt\<rparr> drop_untagged of
                         Inl e \<Rightarrow> Inl e | Inr g \<Rightarrow> Inr (Rendered g))
                 else Inr (Tables \<lparr>nodes = ns, waynodes = wn, waytags = wt, relmembers = rm, reltags = rt\<rparr>)) = Inr out"
    by (auto simp: read_doc_def Let_def split: sum.splits prod.splits)
  have special: "''id'' \<notin> uninteresting_tags" "''index'' \<notin> uninteresting_tags"
    "''geometry'' \<notin> uninteresting_tags"
    by (simp_all add: uninteresting_tags_def)
  have n1: "(\<Union>n\<in>set (findall ''node'' doc). fst ` set (attrib n)) \<subseteq> native_attribute_names doc"
    and n2: "(\<Union>x\<in>set (findall ''way'' doc). \<Union>c\<in>set (findall ''nd'' x). fst ` set (attrib c))
               \<subseteq> native_attribute_names doc"
    and n3: "(\<Union>x\<in>set (findall ''way'' doc). fst ` set (attrib x)) \<subseteq> native_attribute_names doc"
    and n4: "(\<Union>x\<in>set (findall ''relation'' doc). \<Union>c\<in>set (findall ''member'' x). fst ` set (attrib c))
               \<subseteq> native_attribute_names doc"
    and n5: "(\<Union>x\<in>set (findall ''relation'' doc). fst ` set (attrib x)) \<subseteq> native_attribute_names doc"
    unfolding native_attribute_names_def by blast+
  have tagcols: "X \<inter> uninteresting_tags = {}"
    if "X \<subseteq> A \<union> - uninteresting_tags" "A \<subseteq> native_attribute_names doc" for X A
    using that assms(1) by blast
  have linkcols: "X \<inter> uninteresting_tags = {}"
    if "X \<subseteq> A \<union> {''id'', ''index''}" "A \<subseteq> native_attribute_names doc" for X A
    using that assms(1) special by blast
  have c1: "set (columns ns) \<inter> uninteresting_tags = {}"
    using read_nodes_columns [OF ns] n1 by (rule tagcols)
  have c2: "set (columns wn) \<inter> uninteresting_tags = {}"
    using read_linked_columns(1) [OF w [unfolded read_ways_def]] n2 by (rule linkcols)
  have c3: "set (columns wt) \<inter> uninteresting_tags = {}"
    using read_linked_columns(2) [OF w [unfolded read_ways_def]] n3 by (rule tagcols)
  have c4: "set (columns rm) \<inter> uninteresting_tags = {}"
    using read_linked_columns(1) [OF r [unfolded read_relations_def]] n4 by (rule linkcols)
  have c5: "set (columns rt) \<inter> uninteresting_tags = {}"
    using read_linked_columns(2) [OF r [unfolded read_relations_def]] n5 by (rule tagcols)
  show ?thesis
  proof (cases render)
    case False
    with out have "out = Tables \<lparr>nodes = ns, waynodes = wn, waytags = wt, relmembers = rm, reltags = rt\<rparr>"
      by simp
    with c1 c2 c3 c4 c5 show ?thesis by (simp add: Int_Un_distrib2)
  next
    case True
    with out obtain g where g: "render_to_gdf \<lparr>nodes = ns, waynodes = wn, waytags = wt, relmembers = rm, reltags = rt\<rparr> drop_untagged = Inr g"
      and o: "out = Rendered g"
      by (auto split: sum.splits)
    from render_to_gdf_columns [OF g] c1 c3 special(3) show ?thesis
      unfolding o by auto
  qed
qed

theorem denylist_applies_to_tags_witness:
  "native_attribute_names demo_doc \<inter> uninteresting_tags = {}
   \<and> map_sum id result_columns (read_doc demo_float demo_datetime demo_doc True True)
       = Inr {''id'', ''highway'', ''geometry'', ''name''}
   \<and> (\<exists>out. read_doc demo_float demo_datetime demo_doc True True = Inr out
          \<and> result_columns out \<inter> uninteresting_tags = {})"
proof -
  have a: "native_attribute_names demo_doc = {''id'', ''lat'', ''lon'', ''ref'', ''type'', ''role''}"
    by (auto simp: native_attribute_names_def demo_doc_def findall_def)
  have h1: "native_attribute_names demo_doc \<inter> uninteresting_tags = {}"
    unfolding a by (simp add: uninteresting_tags_def)
  have c: "map_sum id result_columns (read_doc demo_float demo_datetime demo_doc True True)
       = Inr {''id'', ''highway'', ''geometry'', ''name''}"
    by (simp add: read_doc_def read_nodes_def read_ways_def read_relations_def read_linked_def
      demo_doc_def findall_def element_to_dict_def getitem_def strs_def link_dicts_def
      dict_to_dataframe_def from_dict_def
      astype_float_def convert_column_def demo_float_def uninteresting_tags_def
      render_to_gdf_def render_nodes_def render_ways_def drop_labels_def dropna_all_def
      point_of_def row_item_def drop_columns_def set_geometry_def select_columns_def
      merge_frames_def merge_row_def suffixed_def groupby_apply_def group_keys_def wayline_def
      int_index_def index_key_def lonlat_def line_string_def attach_lines_def append_frames_def
      enumerate_eq_zip upt_rec numeral_2_eq_2 Let_def)
  then obtain out where o: "read_doc demo_float demo_datetime demo_doc True True = Inr out"
    by (cases "read_doc demo_float demo_datetime demo_doc True True") auto
  from denylist_applies_to_tags [OF h1 o] h1 c o show ?thesis by blast
qed

text \<open>
  The claim as first stated, for a denylisted key wherever it occurs, fails: the node
  \<^verbatim>\<open><node id="1" lat="42.5" lon="-71.0" source="survey"/>\<close> gives the Nodes table and
  the rendered frame a column \<^verbatim>\<open>source\<close>.
\<close>

theorem denylisted_attribute_counterexample:
  "map_sum id result_columns (read_doc demo_float demo_datetime demo_attr_doc False True)
     = Inr {''id'', ''lat'', ''lon'', ''source''}
   \<and> map_sum id result_columns (read_doc demo_float demo_datetime demo_attr_doc True True)
     = Inr {''id'', ''source'', ''geometry''}
   \<and> ''source'' \<in> uninteresting_tags"
  by (simp add: read_doc_def read_nodes_def read_ways_def read_relations_def read_linked_def
      demo_attr_doc_def findall_def element_to_dict_def strs_def dict_to_dataframe_def from_dict_def
      astype_float_def convert_column_def demo_float_def uninteresting_tags_def
      render_to_gdf_def render_nodes_def render_ways_def drop_labels_def dropna_all_def
      point_of_def row_item_def drop_columns_def set_geometry_def)

subsection \<open>Rendering nodes\<close>

lemma coord_float_or_null: "float_or_null v \<Longrightarrow> coord v = Inr (coordinate v)"
  by (cases v rule: coord.cases) (simp_all add: float_or_null_def coordinate_def)

lemma coord_Inr: "coord v = Inr x \<Longrightarrow> x = coordinate v"
  by (cases v rule: coord.cases) (simp_all add: coordinate_def)

lemma point_of_float:
  "''lon'' \<in> set cols \<Longrightarrow> ''lat'' \<in> set cols \<Longrightarrow> float_or_null (r ''lon'') \<Longrightarrow>
   float_or_null (r ''lat'') \<Longrightarrow>
     point_of cols r = Inr (Point (coordinate (r ''lon'')) (coordinate (r ''lat'')))"
  by (simp add: point_of_def row_item_def coord_float_or_null)

lemma rows_set_geometry_points:
  "rows (set_geometry (map (\<lambda>r. Some (p r)) rs)
           \<lparr>columns = cs, rows = map d rs\<rparr>)
     = map (\<lambda>r. (d r)(''geometry'' \<mapsto> VGeom (p r))) rs"
  by (simp add: set_geometry_def zip_map_map zip_same_conv_map)

lemma dropna_untagged:
  "(\<exists>c\<in>set (filter (\<lambda>c. c \<notin> set [''id'', ''lon'', ''lat'']) cols). r c \<noteq> None)
     = (\<not> untagged cols r)"
  by (auto simp: untagged_def)

lemma dropna_all_untagged:
  "dropna_all (filter (\<lambda>c. c \<notin> set [''id'', ''lon'', ''lat'']) cols) ns
     = ns\<lparr>rows := filter (\<lambda>r. \<not> untagged cols r) (rows ns)\<rparr>"
  unfolding dropna_all_def dropna_untagged ..

lemma render_nodes_total:
  assumes cols: "{''id'', ''lon'', ''lat''} \<subseteq> set (columns ns)"
    and coords: "\<forall>r\<in>set (rows ns). float_or_null (r ''lon'') \<and> float_or_null (r ''lat'')"
  shows "\<exists>g. render_nodes ns drop_untagged = Inr g
           \<and> set (columns g) = insert ''geometry'' (set (columns ns) - {''lon'', ''lat''})
           \<and> rows g = map as_point
                (if drop_untagged then filter (\<lambda>r. \<not> untagged (columns ns) r) (rows ns) else rows ns)"
proof -
  define rs where "rs = (if drop_untagged then filter (\<lambda>r. \<not> untagged (columns ns) r) (rows ns) else rows ns)"
  define ns1 where "ns1 = ns\<lparr>rows := rs\<rparr>"
  have stage: "(if drop_untagged
            then (case drop_labels [''id'', ''lon'', ''lat''] (columns ns) of
                    Inl e \<Rightarrow> Inl e
                  | Inr tagcols \<Rightarrow> Inr (dropna_all tagcols ns))
            else Inr ns) = Inr ns1"
  proof (cases drop_untagged)
    case True
    have dl: "drop_labels [''id'', ''lon'', ''lat''] (columns ns)
        = Inr (filter (\<lambda>c. c \<notin> set [''id'', ''lon'', ''lat'']) (columns ns))"
      unfolding drop_labels_def using cols by auto
    show ?thesis
      by (simp only: True dl sum.case dropna_all_untagged ns1_def rs_def if_True)
  next
    case False
    then show ?thesis by (simp add: ns1_def rs_def)
  qed
  have sub: "set rs \<subseteq> set (rows ns)" by (auto simp: rs_def)
  have pts: "map (point_of (columns ns1)) (rows ns1)
      = map Inr (map (\<lambda>r. Point (coordinate (r ''lon'')) (coordinate (r ''lat''))) rs)"
    using cols coords sub by (auto simp: ns1_def intro!: point_of_float)
  have points: "sequence_err (map (point_of (columns ns1)) (rows ns1))
      = Inr (map (\<lambda>r. Point (coordinate (r ''lon'')) (coordinate (r ''lat''))) rs)"
    unfolding pts by (rule sequence_err_map_Inr)
  have dropc: "drop_columns [''lon'', ''lat''] ns1
      = Inr \<lparr>columns = filter (\<lambda>c. c \<notin> set [''lon'', ''lat'']) (columns ns),
             rows = map (\<lambda>r c. if c \<in> set [''lon'', ''lat''] then None else r c) rs\<rparr>"
    using cols by (simp add: drop_columns_def drop_labels_def ns1_def)
  let ?g = "set_geometry
               (map Some (map (\<lambda>r. Point (coordinate (r ''lon'')) (coordinate (r ''lat''))) rs))
               \<lparr>columns = filter (\<lambda>c. c \<notin> set [''lon'', ''lat'']) (columns ns),
                rows = map (\<lambda>r c. if c \<in> set [''lon'', ''lat''] then None else r c) rs\<rparr>"
  have r: "render_nodes ns drop_untagged = Inr ?g"
    unfolding render_nodes_def stage by (simp add: points dropc)
  have rws: "rows ?g = map as_point rs"
    by (simp add: set_geometry_def zip_map_map zip_same_conv_map as_point_def fun_eq_iff)
  have cls: "set (columns ?g) = insert ''geometry'' (set (columns ns) - {''lon'', ''lat''})"
    by (auto simp: columns_set_geometry)
  show ?thesis
  proof (intro exI conjI)
    show "render_nodes ns drop_untagged = Inr ?g" by (rule r)
    show "set (columns ?g) = insert ''geometry'' (set (columns ns) - {''lon'', ''lat''})"
      by (rule cls)
    show "rows ?g = map as_point
                (if drop_untagged then filter (\<lambda>r. \<not> untagged (columns ns) r) (rows ns) else rows ns)"
      unfolding rs_def [symmetric] by (rule rws)
  qed
qed

lemma astype_float_cell_Inr: "astype_float_cell to_float v = Inr v' \<Longrightarrow> float_or_null v'"
  by (cases "(to_float, v)" rule: astype_float_cell.cases)
    (auto simp: float_or_null_def split: conv.splits)

lemma read_nodes_coordinates:
  assumes "read_nodes to_float to_datetime doc = Inr ns"
  shows "''lon'' \<in> set (columns ns) \<and> ''lat'' \<in> set (columns ns)
         \<and> (\<forall>r\<in>set (rows ns). float_or_null (r ''lon'') \<and> float_or_null (r ''lat''))"
proof -
  from assms obtain df df'
    where df': "astype_float to_float ''lon'' df = Inr df'"
      and ns: "astype_float to_float ''lat'' df' = Inr ns"
    by (auto simp: read_nodes_def split: sum.splits)
  have c: "''lon'' \<in> set (columns ns)" "''lat'' \<in> set (columns ns)"
    using astype_float_Inr(1,3) [OF df'] astype_float_Inr(1,3) [OF ns] by simp_all
  have "float_or_null (r ''lon'') \<and> float_or_null (r ''lat'')" if "r \<in> set (rows ns)" for r
  proof -
    from list_all2_setD2 [OF astype_float_Inr(2) [OF ns] that] obtain r'
      where r': "r' \<in> set (rows df')" "astype_float_cell to_float (r' ''lat'') = Inr (r ''lat'')"
        "\<forall>c'. c' \<noteq> ''lat'' \<longrightarrow> r c' = r' c'" by blast
    from list_all2_setD2 [OF astype_float_Inr(2) [OF df'] r'(1)] obtain r''
      where "astype_float_cell to_float (r'' ''lon'') = Inr (r' ''lon'')" by blast
    then have "float_or_null (r' ''lon'')" by (rule astype_float_cell_Inr)
    moreover from r'(3) have "r ''lon'' = r' ''lon''" by simp
    moreover from r'(2) have "float_or_null (r ''lat'')" by (rule astype_float_cell_Inr)
    ultimately show ?thesis by simp
  qed
  with c show ?thesis by blast
qed

lemma as_point_tag_column:
  "c \<notin> {''lon'', ''lat'', ''geometry''} \<Longrightarrow> as_point r c = r c"
  by (auto simp: as_point_def)

text \<open>
  C6. Let the Nodes table have the columns \<^verbatim>\<open>id\<close>, \<^verbatim>\<open>lon\<close> and \<^verbatim>\<open>lat\<close> and hold floats or
  nulls in its coordinate columns (as every table of \<^verbatim>\<open>read_nodes\<close> does), and let a row
  of it have no non-null column besides \<^verbatim>\<open>id\<close>, \<^verbatim>\<open>lon\<close>, \<^verbatim>\<open>lat\<close>. With the flag on,
  \<^verbatim>\<open>render_nodes\<close> returns the point rows of exactly the tagged rows, so the untagged
  node is absent (no output row equals its point row, provided no tag is itself named
  \<^verbatim>\<open>geometry\<close>). With the flag off it returns the point rows of all rows; the node's
  point row holds the point built from its \<^verbatim>\<open>(lon, lat)\<close> and is null in every column
  other than \<^verbatim>\<open>id\<close> and \<^verbatim>\<open>geometry\<close>. Neither output has a column \<^verbatim>\<open>lon\<close> or \<^verbatim>\<open>lat\<close>.
\<close>

theorem untagged_nodes:
  assumes cols: "{''id'', ''lon'', ''lat''} \<subseteq> set (columns ns)"
    and coords: "\<forall>r'\<in>set (rows ns). float_or_null (r' ''lon'') \<and> float_or_null (r' ''lat'')"
    and r: "r \<in> set (rows ns)"
    and u: "untagged (columns ns) r"
    and xy: "r ''lon'' = Some (VFloat x)" "r ''lat'' = Some (VFloat y)"
  shows "\<exists>g g'. render_nodes ns True = Inr g \<and> render_nodes ns False = Inr g'
           \<and> rows g = map as_point (filter (\<lambda>r'. \<not> untagged (columns ns) r') (rows ns))
           \<and> (''geometry'' \<notin> set (columns ns) \<longrightarrow> as_point r \<notin> set (rows g))
           \<and> rows g' = map as_point (rows ns)
           \<and> as_point r \<in> set (rows g')
           \<and> as_point r ''geometry'' = Some (VGeom (Point (Some x) (Some y)))
           \<and> (\<forall>c\<in>set (columns g'). c \<notin> {''id'', ''geometry''} \<longrightarrow> as_point r c = None)
           \<and> ''lon'' \<notin> set (columns g) \<and> ''lat'' \<notin> set (columns g)
           \<and> ''lon'' \<notin> set (columns g') \<and> ''lat'' \<notin> set (columns g')"
proof -
  from render_nodes_total [OF cols coords, of True] obtain g
    where g: "render_nodes ns True = Inr g"
      and gc: "set (columns g) = insert ''geometry'' (set (columns ns) - {''lon'', ''lat''})"
      and gr: "rows g = map as_point (filter (\<lambda>r'. \<not> untagged (columns ns) r') (rows ns))"
    by auto
  from render_nodes_total [OF cols coords, of False] obtain g'
    where g': "render_nodes ns False = Inr g'"
      and g'c: "set (columns g') = insert ''geometry'' (set (columns ns) - {''lon'', ''lat''})"
      and g'r: "rows g' = map as_point (rows ns)"
    by auto
  have absent: "as_point r \<notin> set (rows g)" if nogeo: "''geometry'' \<notin> set (columns ns)"
  proof
    assume "as_point r \<in> set (rows g)"
    then obtain r' where r': "r' \<in> set (rows ns)" "\<not> untagged (columns ns) r'"
      and eq: "as_point r = as_point r'"
      unfolding gr by auto
    from r'(2) obtain c where c: "c \<in> set (columns ns)" "c \<notin> {''id'', ''lon'', ''lat''}" "r' c \<noteq> None"
      by (auto simp: untagged_def)
    from c(1) nogeo have "c \<noteq> ''geometry''" by auto
    with c(2) have "as_point r c = r c" "as_point r' c = r' c"
      by (simp_all add: as_point_tag_column)
    moreover from u c(1,2) have "r c = None" by (auto simp: untagged_def)
    ultimately show False using eq c(3) by simp
  qed
  have present: "as_point r \<in> set (rows g')"
    unfolding g'r using r by simp
  have geo: "as_point r ''geometry'' = Some (VGeom (Point (Some x) (Some y)))"
    by (simp add: as_point_def xy coordinate_def)
  have empty: "\<forall>c\<in>set (columns g'). c \<notin> {''id'', ''geometry''} \<longrightarrow> as_point r c = None"
  proof (intro ballI impI)
    fix c assume c: "c \<in> set (columns g')" "c \<notin> {''id'', ''geometry''}"
    then have "c \<in> set (columns ns)" "c \<notin> {''id'', ''lon'', ''lat''}" "c \<notin> {''lon'', ''lat'', ''geometry''}"
      unfolding g'c by auto
    with u show "as_point r c = None"
      by (simp add: as_point_tag_column untagged_def)
  qed
  have nocoord: "''lon'' \<notin> set (columns g)" "''lat'' \<notin> set (columns g)"
    "''lon'' \<notin> set (columns g')" "''lat'' \<notin> set (columns g')"
    unfolding gc g'c by simp_all
  from g g' gr absent g'r present geo empty nocoord show ?thesis by blast
qed

theorem untagged_nodes_witness:
  "set (columns demo_nodes_frame) = {''id'', ''lon'', ''lat'', ''highway''}
   \<and> list_all (\<lambda>r. float_or_null (r ''lon'') \<and> float_or_null (r ''lat'')) (rows demo_nodes_frame)
   \<and> demo_untagged_row \<in> set (rows demo_nodes_frame)
   \<and> untagged (columns demo_nodes_frame) demo_untagged_row
   \<and> (\<exists>g g'. render_nodes demo_nodes_frame True = Inr g
          \<and> render_nodes demo_nodes_frame False = Inr g'
          \<and> length (rows g) = 1 \<and> length (rows g') = 3
          \<and> as_point demo_untagged_row \<notin> set (rows g)
          \<and> as_point demo_untagged_row \<in> set (rows g')
          \<and> as_point demo_untagged_row ''geometry'' = Some (VGeom (Point (Some ''-71.1'') (Some ''42.6''))))"
proof -
  have h1: "{''id'', ''lon'', ''lat''} \<subseteq> set (columns demo_nodes_frame)"
    and c: "set (columns demo_nodes_frame) = {''id'', ''lon'', ''lat'', ''highway''}"
    and nogeo: "''geometry'' \<notin> set (columns demo_nodes_frame)"
    by (auto simp: demo_nodes_frame_def)
  have h2: "\<forall>r'\<in>set (rows demo_nodes_frame). float_or_null (r' ''lon'') \<and> float_or_null (r' ''lat'')"
    by (simp add: demo_nodes_frame_def float_or_null_def)
  have h3: "demo_untagged_row \<in> set (rows demo_nodes_frame)"
    by (simp add: demo_nodes_frame_def demo_untagged_row_def)
  have h4: "untagged (columns demo_nodes_frame) demo_untagged_row"
    by (simp add: demo_nodes_frame_def demo_untagged_row_def untagged_def)
  have h5: "demo_untagged_row ''lon'' = Some (VFloat ''-71.1'')"
    and h6: "demo_untagged_row ''lat'' = Some (VFloat ''42.6'')"
    by (simp_all add: demo_untagged_row_def)
  have f: "length (filter (\<lambda>r'. \<not> untagged (columns demo_nodes_frame) r') (rows demo_nodes_frame)) = 1"
    by (simp add: demo_nodes_frame_def untagged_def)
  have l: "length (rows demo_nodes_frame) = 3" by (simp add: demo_nodes_frame_def)
  from untagged_nodes [OF h1 h2 h3 h4 h5 h6] obtain g g'
    where "render_nodes demo_nodes_frame True = Inr g" "render_nodes demo_nodes_frame False = Inr g'"
      "rows g = map as_point (filter (\<lambda>r'. \<not> untagged (columns demo_nodes_frame) r') (rows demo_nodes_frame))"
      "''geometry'' \<notin> set (columns demo_nodes_frame) \<longrightarrow> as_point demo_untagged_row \<notin> set (rows g)"
      "rows g' = map as_point (rows demo_nodes_frame)"
      "as_point demo_untagged_row \<in> set (rows g')"
      "as_point demo_untagged_row ''geometry'' = Some (VGeom (Point (Some ''-71.1'') (Some ''42.6'')))"
    by blast
  with nogeo f l have "render_nodes demo_nodes_frame True = Inr g
          \<and> render_nodes demo_nodes_frame False = Inr g'
          \<and> length (rows g) = 1 \<and> length (rows g') = 3
          \<and> as_point demo_untagged_row \<notin> set (rows g)
          \<and> as_point demo_untagged_row \<in> set (rows g')
          \<and> as_point demo_untagged_row ''geometry'' = Some (VGeom (Point (Some ''-71.1'') (Some ''42.6'')))"
    by simp
  then have "\<exists>g g'. render_nodes demo_nodes_frame True = Inr g
          \<and> render_nodes demo_nodes_frame False = Inr g'
          \<and> length (rows g) = 1 \<and> length (rows g') = 3
          \<and> as_point demo_untagged_row \<notin> set (rows g)
          \<and> as_point demo_untagged_row \<in> set (rows g')
          \<and> as_point demo_untagged_row ''geometry'' = Some (VGeom (Point (Some ''-71.1'') (Some ''42.6'')))"
    by blast
  moreover have "list_all (\<lambda>r. float_or_null (r ''lon'') \<and> float_or_null (r ''lat'')) (rows demo_nodes_frame)"
    using h2 by (simp add: list_all_iff)
  ultimately show ?thesis using c h3 h4 by blast
qed

subsection \<open>Rendering ways: the join, the groups and their lines\<close>

lemma select_columns_Inr:
  "select_columns labels df = Inr df' \<Longrightarrow>
     set labels \<subseteq> set (columns df) \<and> columns df' = labels
     \<and> rows df' = map (restrict_row labels) (rows df)"
  by (auto simp: select_columns_def restrict_row_def split: if_splits)

lemma merge_frames_Inr:
  "merge_frames left right = Inr m \<Longrightarrow>
     ''ref'' \<in> set (columns left) \<and> ''id'' \<in> set (columns right)
     \<and> columns m = columns left @ map (suffixed (columns left)) (columns right)
     \<and> rows m = concat (map (\<lambda>l. map (merge_row (columns left) (columns right) l)
                                         (filter (\<lambda>r. r ''id'' = l ''ref'') (rows right)))
                                (rows left))"
  by (auto simp: merge_frames_def split: if_splits)

lemma merge_row_left: "c \<in> set lcols \<Longrightarrow> merge_row lcols rcols l r c = l c"
  by (simp add: merge_row_def)

lemma merge_row_lon_lat:
  assumes "''id'' \<in> set lcols" and "''lon'' \<notin> set lcols" and "''lat'' \<notin> set lcols"
  shows "merge_row lcols [''id'', ''lon'', ''lat''] l r ''lon'' = r ''lon''"
    and "merge_row lcols [''id'', ''lon'', ''lat''] l r ''lat'' = r ''lat''"
  using assms by (simp_all add: merge_row_def suffixed_def)

lemma filter_distinct_find:
  "distinct (map f xs) \<Longrightarrow>
     filter (\<lambda>x. f x = a) xs = (case find (\<lambda>x. f x = a) xs of None \<Rightarrow> [] | Some x \<Rightarrow> [x])"
proof (induction xs)
  case Nil
  show ?case by simp
next
  case (Cons x xs)
  show ?case
  proof (cases "f x = a")
    case True
    with Cons.prems have "\<forall>y\<in>set xs. f y \<noteq> a" by (auto simp: image_iff)
    then have "filter (\<lambda>x. f x = a) xs = []" by (simp add: filter_empty_conv)
    with True show ?thesis by simp
  next
    case False
    with Cons show ?thesis by simp
  qed
qed

lemma concat_map_option:
  "concat (map (\<lambda>x. case f x of None \<Rightarrow> [] | Some y \<Rightarrow> [y]) xs) = List.map_filter f xs"
  by (induction xs) (simp_all split: option.splits)

lemma filter_map_filter:
  "(\<And>x y. f x = Some y \<Longrightarrow> Q y = Q' x) \<Longrightarrow>
     filter Q (List.map_filter f xs) = List.map_filter f (filter Q' xs)"
  by (induction xs) (auto split: option.splits)

lemma map_map_filter: "map g (List.map_filter f xs) = List.map_filter (\<lambda>x. map_option g (f x)) xs"
  by (induction xs) (simp_all split: option.splits)

lemma map_filter_map: "List.map_filter f (map g xs) = List.map_filter (\<lambda>x. f (g x)) xs"
  by (induction xs) (simp_all split: option.splits)

lemma insort_key_map:
  "insort_key f (h x) (map h xs) = map h (insort_key (\<lambda>x. f (h x)) x xs)"
  by (induction xs) simp_all

lemma sort_key_map: "sort_key f (map h xs) = map h (sort_key (\<lambda>x. f (h x)) xs)"
  by (induction xs) (simp_all add: insort_key_map)

lemma insort_key_cong_set:
  "f x = g x \<Longrightarrow> (\<And>y. y \<in> set ys \<Longrightarrow> f y = g y) \<Longrightarrow> insort_key f x ys = insort_key g x ys"
  by (induction ys) simp_all

lemma sort_key_cong_set:
  "(\<And>x. x \<in> set xs \<Longrightarrow> f x = g x) \<Longrightarrow> sort_key f xs = sort_key g xs"
proof (induction xs)
  case Nil
  show ?case by simp
next
  case (Cons x xs)
  then have "sort_key f xs = sort_key g xs" by simp
  moreover have "insort_key f x (sort_key g xs) = insort_key g x (sort_key g xs)"
    by (rule insort_key_cong_set) (simp_all add: Cons.prems)
  ultimately show ?case by simp
qed

lemma sort_key_map_filter:
  assumes "\<And>x y. f x = Some y \<Longrightarrow> key y = key' x"
  shows "sort_key key (List.map_filter f xs) = List.map_filter f (sort_key key' xs)"
proof -
  have "sort_key key (map (the \<circ> f) (filter (\<lambda>x. f x \<noteq> None) xs))
      = map (the \<circ> f) (sort_key (\<lambda>x. key ((the \<circ> f) x)) (filter (\<lambda>x. f x \<noteq> None) xs))"
    by (rule sort_key_map)
  also have "sort_key (\<lambda>x. key ((the \<circ> f) x)) (filter (\<lambda>x. f x \<noteq> None) xs)
      = sort_key key' (filter (\<lambda>x. f x \<noteq> None) xs)"
    by (rule sort_key_cong_set) (auto simp: assms)
  also have "\<dots> = filter (\<lambda>x. f x \<noteq> None) (sort_key key' xs)"
    by (simp add: filter_sort)
  finally show ?thesis unfolding map_filter_def .
qed

lemma restrict_row_in: "c \<in> set labels \<Longrightarrow> restrict_row labels r c = r c"
  by (simp add: restrict_row_def)

lemma merged_rows:
  assumes np: "select_columns [''id'', ''lon'', ''lat''] ns = Inr node_points"
    and mg: "merge_frames wn node_points = Inr merged"
    and uniq: "distinct (map (\<lambda>r. r ''id'') (rows ns))"
  shows "rows merged = List.map_filter (joined ns (columns wn)) (rows wn)"
proof -
  from select_columns_Inr [OF np]
  have npc: "columns node_points = [''id'', ''lon'', ''lat'']"
    and npr: "rows node_points = map (restrict_row [''id'', ''lon'', ''lat'']) (rows ns)"
    by simp_all
  have m: "map (merge_row (columns wn) (columns node_points) l)
             (filter (\<lambda>r. r ''id'' = l ''ref'') (rows node_points))
       = (case joined ns (columns wn) l of None \<Rightarrow> [] | Some y \<Rightarrow> [y])" for l
  proof -
    have "filter (\<lambda>r. r ''id'' = l ''ref'') (rows node_points)
        = map (restrict_row [''id'', ''lon'', ''lat'']) (filter (\<lambda>r. r ''id'' = l ''ref'') (rows ns))"
      unfolding npr filter_map by (simp add: comp_def restrict_row_in)
    also have "filter (\<lambda>r. r ''id'' = l ''ref'') (rows ns)
        = (case find (\<lambda>r. r ''id'' = l ''ref'') (rows ns) of None \<Rightarrow> [] | Some x \<Rightarrow> [x])"
      using uniq by (rule filter_distinct_find)
    finally show ?thesis
      by (simp add: joined_def npc split: option.splits)
  qed
  from merge_frames_Inr [OF mg]
  have "rows merged = concat (map (\<lambda>l. map (merge_row (columns wn) (columns node_points) l)
                                         (filter (\<lambda>r. r ''id'' = l ''ref'') (rows node_points)))
                                (rows wn))"
    by simp
  then show ?thesis unfolding m concat_map_option .
qed

lemma joined_left: "joined ns lcols l = Some m \<Longrightarrow> c \<in> set lcols \<Longrightarrow> m c = l c"
  by (auto simp: joined_def merge_row_left)

lemma joined_coords:
  assumes "''id'' \<in> set lcols" and "''lon'' \<notin> set lcols" and "''lat'' \<notin> set lcols"
  shows "map_option (\<lambda>m. (coordinate (m ''lon''), coordinate (m ''lat''))) (joined ns lcols l)
           = node_coords ns (l ''ref'')"
  by (simp add: joined_def node_coords_def option.map_comp comp_def
      merge_row_lon_lat [OF assms] restrict_row_in)

lemma group_coords:
  assumes rows: "rows merged = List.map_filter (joined ns (columns wn)) (rows wn)"
    and cols: "''id'' \<in> set (columns wn)" "''index'' \<in> set (columns wn)"
      "''lon'' \<notin> set (columns wn)" "''lat'' \<notin> set (columns wn)"
  shows "map (\<lambda>m. (coordinate (m ''lon''), coordinate (m ''lat'')))
           (sort_key index_key (filter (\<lambda>m. m ''id'' = Some k) (rows merged)))
         = way_coords k ns wn"
proof -
  let ?L = "filter (\<lambda>l. l ''id'' = Some k) (rows wn)"
  have "filter (\<lambda>m. m ''id'' = Some k) (rows merged) = List.map_filter (joined ns (columns wn)) ?L"
    unfolding rows by (rule filter_map_filter) (simp add: joined_left [OF _ cols(1)])
  also have "sort_key index_key \<dots> = List.map_filter (joined ns (columns wn)) (sort_key index_key ?L)"
    by (rule sort_key_map_filter) (simp add: index_key_def joined_left [OF _ cols(2)])
  finally show ?thesis
    by (simp add: map_map_filter joined_coords [OF cols(1,3,4)] way_coords_def way_links_def
        map_filter_map)
qed

lemma lonlat_Inr: "lonlat r = Inr p \<Longrightarrow> p = (coordinate (r ''lon''), coordinate (r ''lat''))"
  by (auto simp: lonlat_def split: sum.splits dest: coord_Inr)

lemma lonlat_float:
  "float_or_null (r ''lon'') \<Longrightarrow> float_or_null (r ''lat'') \<Longrightarrow>
     lonlat r = Inr (coordinate (r ''lon''), coordinate (r ''lat''))"
  by (simp add: lonlat_def coord_float_or_null)

lemma wayline_Inr:
  assumes "wayline cols df = Inr g"
  shows "g = LineString (map (\<lambda>m. (coordinate (m ''lon''), coordinate (m ''lat''))) (sort_key index_key df))"
    and "length df \<noteq> 1"
proof -
  from assms obtain cs where cs: "sequence_err (map lonlat (sort_key index_key df)) = Inr cs"
    and ls: "line_string cs = Inr g"
    by (auto simp: wayline_def split: if_splits sum.splits)
  from cs have "map lonlat (sort_key index_key df) = map Inr cs" by (simp add: sequence_err_Inr)
  then have "list_all2 (\<lambda>r c. lonlat r = Inr c) (sort_key index_key df) cs"
    by (simp add: list_all2_conv_all_nth list_eq_iff_nth_eq)
  then have "list_all2 (\<lambda>c r. c = (coordinate (r ''lon''), coordinate (r ''lat''))) cs (sort_key index_key df)"
    by (auto simp: list_all2_conv_all_nth dest: lonlat_Inr)
  then have c: "cs = map (\<lambda>m. (coordinate (m ''lon''), coordinate (m ''lat''))) (sort_key index_key df)"
    by (induction rule: list_all2_induct) simp_all
  from ls have "g = LineString cs" "length cs \<noteq> 1"
    by (auto simp: line_string_def split: if_splits)
  with c show "g = LineString (map (\<lambda>m. (coordinate (m ''lon''), coordinate (m ''lat''))) (sort_key index_key df))"
    and "length df \<noteq> 1" by simp_all
qed

lemma wayline_total:
  assumes "''index'' \<in> set cols" and "list_all int_index df"
    and "\<forall>r\<in>set df. float_or_null (r ''lon'') \<and> float_or_null (r ''lat'')"
    and "length df \<noteq> 1"
  shows "wayline cols df
           = Inr (LineString (map (\<lambda>m. (coordinate (m ''lon''), coordinate (m ''lat'')))
                    (sort_key index_key df)))"
proof -
  have "map lonlat (sort_key index_key df)
      = map Inr (map (\<lambda>m. (coordinate (m ''lon''), coordinate (m ''lat''))) (sort_key index_key df))"
    using assms(3) by (simp add: lonlat_float)
  then have "sequence_err (map lonlat (sort_key index_key df))
      = Inr (map (\<lambda>m. (coordinate (m ''lon''), coordinate (m ''lat''))) (sort_key index_key df))"
    by (simp only: sequence_err_map_Inr)
  with assms(1,2,4) show ?thesis by (simp add: wayline_def line_string_def)
qed

lemma set_group_keys: "set (group_keys rs) = {k. \<exists>r\<in>set rs. r ''id'' = Some k}"
  by (force simp: group_keys_def map_filter_def image_iff)

lemma distinct_group_keys: "distinct (group_keys rs)"
  by (simp add: group_keys_def)

lemma groupby_apply_Inr:
  assumes "groupby_apply df = Inr wl"
  shows "map_of wl k =
           (if filter (\<lambda>r. r ''id'' = Some k) (rows df) = [] then None
            else (case wayline (columns df) (filter (\<lambda>r. r ''id'' = Some k) (rows df)) of
                    Inl e \<Rightarrow> None | Inr g \<Rightarrow> Some g))"
    and "filter (\<lambda>r. r ''id'' = Some k) (rows df) \<noteq> [] \<Longrightarrow>
           \<not> isl (wayline (columns df) (filter (\<lambda>r. r ''id'' = Some k) (rows df)))"
    and "wl = [] \<longleftrightarrow> group_keys (rows df) = []"
proof -
  let ?W = "\<lambda>k. wayline (columns df) (filter (\<lambda>r. r ''id'' = Some k) (rows df))"
  from assms have eq: "map (\<lambda>k. case ?W k of Inl e \<Rightarrow> Inl e | Inr g \<Rightarrow> Inr (k, g)) (group_keys (rows df))
      = map Inr wl"
    by (simp add: groupby_apply_def sequence_err_Inr)
  then have la: "list_all2 (\<lambda>k p. (case ?W k of Inl e \<Rightarrow> Inl e | Inr g \<Rightarrow> Inr (k, g)) = Inr p)
      (group_keys (rows df)) wl"
    by (simp add: list_all2_conv_all_nth list_eq_iff_nth_eq)
  then have la2: "list_all2 (\<lambda>k p. ?W k = Inr (snd p) \<and> fst p = k) (group_keys (rows df)) wl"
    by (rule list_all2_mono) (auto split: sum.splits)
  then have wl: "wl = map (\<lambda>k. (k, case ?W k of Inr g \<Rightarrow> g)) (group_keys (rows df))"
    by (induction rule: list_all2_induct) (auto simp: prod_eq_iff)
  have ok: "\<not> isl (?W k')" if "k' \<in> set (group_keys (rows df))" for k'
    using list_all2_setD1 [OF la2 that] by auto
  have mem: "k \<in> set (group_keys (rows df)) \<longleftrightarrow> filter (\<lambda>r. r ''id'' = Some k) (rows df) \<noteq> []"
    by (auto simp: set_group_keys filter_empty_conv)
  show "map_of wl k =
           (if filter (\<lambda>r. r ''id'' = Some k) (rows df) = [] then None
            else (case ?W k of Inl e \<Rightarrow> None | Inr g \<Rightarrow> Some g))"
  proof (cases "k \<in> set (group_keys (rows df))")
    case True
    then have "map_of wl k = Some (case ?W k of Inr g \<Rightarrow> g)"
      unfolding wl by (simp add: map_of_map_restrict)
    with True ok [OF True] mem show ?thesis by (auto split: sum.splits)
  next
    case False
    then have "map_of wl k = None"
      unfolding wl by (simp add: map_of_map_restrict)
    with False mem show ?thesis by simp
  qed
  show "filter (\<lambda>r. r ''id'' = Some k) (rows df) \<noteq> [] \<Longrightarrow> \<not> isl (?W k)"
    using ok mem by blast
  show "wl = [] \<longleftrightarrow> group_keys (rows df) = []"
    using list_all2_lengthD [OF la] by auto
qed

lemma rows_attach_lines:
  "rows (attach_lines wl wt)
     = map (\<lambda>r. r(''geometry'' := map_option VGeom (case r ''id'' of None \<Rightarrow> None | Some k \<Rightarrow> map_of wl k)))
         (rows wt)"
  by (simp add: attach_lines_def Let_def set_geometry_def zip_map2 zip_same_conv_map)

lemma set_map_filter: "set (List.map_filter f xs) = {y. \<exists>x\<in>set xs. f x = Some y}"
  by (induction xs) (auto split: option.splits)

lemma joined_Some:
  "joined ns lcols l = Some m \<Longrightarrow>
     \<exists>r\<in>set (rows ns). m = merge_row lcols [''id'', ''lon'', ''lat''] l (restrict_row [''id'', ''lon'', ''lat''] r)"
  by (auto simp: joined_def find_Some_iff)

lemma length_way_coords:
  assumes "rows merged = List.map_filter (joined ns (columns wn)) (rows wn)"
    and "''id'' \<in> set (columns wn)" "''index'' \<in> set (columns wn)"
      "''lon'' \<notin> set (columns wn)" "''lat'' \<notin> set (columns wn)"
  shows "length (way_coords k ns wn) = length (filter (\<lambda>m. m ''id'' = Some k) (rows merged))"
  unfolding group_coords [OF assms, symmetric] by simp

lemma render_ways_rows:
  assumes ok: "render_ways ns wn wt = Inr (Some g)"
    and cols: "''id'' \<in> set (columns wn)" "''index'' \<in> set (columns wn)"
      "''lon'' \<notin> set (columns wn)" "''lat'' \<notin> set (columns wn)"
    and uniq: "distinct (map (\<lambda>r. r ''id'') (rows ns))"
  shows "rows g = map (\<lambda>r. r(''geometry'' := (case r ''id'' of None \<Rightarrow> None | Some k \<Rightarrow> line_cell k ns wn)))
                    (rows wt)"
    and "length (way_coords k ns wn) \<noteq> 1"
proof -
  from ok obtain node_points merged way_lines
    where np: "select_columns [''id'', ''lon'', ''lat''] ns = Inr node_points"
      and mg: "merge_frames wn node_points = Inr merged"
      and wl: "groupby_apply merged = Inr way_lines"
      and g: "g = attach_lines way_lines wt"
    by (rule render_ways_Inr)
  note mr = merged_rows [OF np mg uniq]
  note gc = group_coords [OF mr cols]
  have both: "map_option VGeom (map_of way_lines k) = line_cell k ns wn
              \<and> length (way_coords k ns wn) \<noteq> 1" for k
  proof -
    let ?G = "filter (\<lambda>m. m ''id'' = Some k) (rows merged)"
    have l: "length (way_coords k ns wn) = length ?G"
      by (rule length_way_coords [OF mr cols])
    show ?thesis
    proof (cases "?G = []")
      case True
      with l have "way_coords k ns wn = []" by simp
      with True groupby_apply_Inr(1) [OF wl, of k]
      show ?thesis by (simp add: line_cell_def)
    next
      case False
      from groupby_apply_Inr(2) [OF wl False] obtain line
        where line: "wayline (columns merged) ?G = Inr line"
        by (cases "wayline (columns merged) ?G") auto
      from wayline_Inr [OF line] have "line = LineString (way_coords k ns wn)" "length ?G \<noteq> 1"
        unfolding gc by simp_all
      moreover from False l have "way_coords k ns wn \<noteq> []" by auto
      moreover from groupby_apply_Inr(1) [OF wl, of k] False line
      have "map_of way_lines k = Some line" by simp
      ultimately show ?thesis
        using l by (simp add: line_cell_def)
    qed
  qed
  then have cell: "map_option VGeom (map_of way_lines k) = line_cell k ns wn"
    and len: "length (way_coords k ns wn) \<noteq> 1" for k
    by simp_all
  show "rows g = map (\<lambda>r. r(''geometry'' := (case r ''id'' of None \<Rightarrow> None | Some k \<Rightarrow> line_cell k ns wn)))
                    (rows wt)"
    unfolding g rows_attach_lines
    by (rule map_cong [OF refl]) (auto simp: cell split: option.splits)
  show "length (way_coords k ns wn) \<noteq> 1" by (rule len)
qed

lemma render_ways_total:
  assumes nonempty: "rows wn \<noteq> []"
    and ncols: "{''id'', ''lon'', ''lat''} \<subseteq> set (columns ns)"
    and cols: "''id'' \<in> set (columns wn)" "''index'' \<in> set (columns wn)"
      "''lon'' \<notin> set (columns wn)" "''lat'' \<notin> set (columns wn)"
    and ref: "''ref'' \<in> set (columns wn)"
    and wtid: "''id'' \<in> set (columns wt)"
    and uniq: "distinct (map (\<lambda>r. r ''id'') (rows ns))"
    and ints: "\<forall>l\<in>set (rows wn). int_index l"
    and floats: "\<forall>r\<in>set (rows ns). float_or_null (r ''lon'') \<and> float_or_null (r ''lat'')"
    and sizes: "\<forall>l\<in>set (rows wn). \<forall>k. l ''id'' = Some k \<longrightarrow> length (way_coords k ns wn) \<noteq> 1"
    and some: "\<exists>l\<in>set (rows wn). \<exists>k. l ''id'' = Some k \<and> way_coords k ns wn \<noteq> []"
  shows "\<exists>g. render_ways ns wn wt = Inr (Some g)"
proof -
  define node_points :: "('a, 'b) frame"
    where "node_points = \<lparr>columns = [''id'', ''lon'', ''lat''],
                           rows = map (\<lambda>r c. if c \<in> set [''id'', ''lon'', ''lat''] then r c else None) (rows ns)\<rparr>"
  have np: "select_columns [''id'', ''lon'', ''lat''] ns = Inr node_points"
    using ncols by (simp add: select_columns_def node_points_def)
  define merged where "merged = \<lparr>columns = columns wn @ map (suffixed (columns wn)) (columns node_points),
                rows = concat (map (\<lambda>l. map (merge_row (columns wn) (columns node_points) l)
                                         (filter (\<lambda>r. r ''id'' = l ''ref'') (rows node_points)))
                                (rows wn))\<rparr>"
  have mg: "merge_frames wn node_points = Inr merged"
    using ref by (simp add: merge_frames_def merged_def node_points_def)
  note mr = merged_rows [OF np mg uniq]
  have mc: "''index'' \<in> set (columns merged)" using cols(2) by (simp add: merged_def)
  have line: "\<not> isl (wayline (columns merged) (filter (\<lambda>m. m ''id'' = Some k) (rows merged)))"
    if k: "k \<in> set (group_keys (rows merged))" for k
  proof -
    let ?G = "filter (\<lambda>m. m ''id'' = Some k) (rows merged)"
    have src: "\<exists>l\<in>set (rows wn). joined ns (columns wn) l = Some m" if "m \<in> set ?G" for m
      using that unfolding mr by (auto simp: set_map_filter)
    have i: "list_all int_index ?G"
      unfolding list_all_iff
    proof
      fix m assume "m \<in> set ?G"
      from src [OF this] obtain l where l: "l \<in> set (rows wn)" "joined ns (columns wn) l = Some m"
        by blast
      from joined_left [OF l(2) cols(2)] ints l(1) show "int_index m"
        by (simp add: int_index_def)
    qed
    have f: "\<forall>m\<in>set ?G. float_or_null (m ''lon'') \<and> float_or_null (m ''lat'')"
    proof
      fix m assume "m \<in> set ?G"
      from src [OF this] obtain l where l: "joined ns (columns wn) l = Some m" by blast
      from joined_Some [OF l] obtain r where r: "r \<in> set (rows ns)"
        "m = merge_row (columns wn) [''id'', ''lon'', ''lat''] l (restrict_row [''id'', ''lon'', ''lat''] r)"
        by blast
      from r(2) have "m ''lon'' = r ''lon''" "m ''lat'' = r ''lat''"
        by (simp_all add: merge_row_lon_lat [OF cols(1,3,4)] restrict_row_in)
      with floats r(1) show "float_or_null (m ''lon'') \<and> float_or_null (m ''lat'')" by simp
    qed
    from k obtain m where m: "m \<in> set (rows merged)" "m ''id'' = Some k"
      by (auto simp: set_group_keys)
    then have "m \<in> set ?G" by simp
    from src [OF this] obtain l where l: "l \<in> set (rows wn)" "joined ns (columns wn) l = Some m"
      by blast
    from joined_left [OF l(2) cols(1)] m(2) have "l ''id'' = Some k" by simp
    with sizes l(1) have "length (way_coords k ns wn) \<noteq> 1" by blast
    then have n: "length ?G \<noteq> 1"
      by (simp add: length_way_coords [OF mr cols])
    show ?thesis by (simp add: wayline_total [OF mc i f n])
  qed
  have "\<not> isl (groupby_apply merged)"
    unfolding groupby_apply_def sequence_err_isl
    by (auto simp: isl_case_sum_Inr dest: line)
  then obtain way_lines where wl: "groupby_apply merged = Inr way_lines"
    by (cases "groupby_apply merged") auto
  from some obtain l k where lk: "l \<in> set (rows wn)" "l ''id'' = Some k" "way_coords k ns wn \<noteq> []"
    by blast
  then have "filter (\<lambda>m. m ''id'' = Some k) (rows merged) \<noteq> []"
    using length_way_coords [OF mr cols, of k] by auto
  then have "k \<in> set (group_keys (rows merged))"
    by (auto simp: set_group_keys filter_empty_conv)
  with groupby_apply_Inr(3) [OF wl] have ne: "way_lines \<noteq> []" by auto
  have "columns wn \<noteq> []" using cols(1) by auto
  with nonempty np mg wl wtid ne have "render_ways ns wn wt = Inr (Some (attach_lines way_lines wt))"
    by (simp add: render_ways_def)
  then show ?thesis by blast
qed

lemma find_distinct:
  "distinct (map f xs) \<Longrightarrow> x \<in> set xs \<Longrightarrow> f x = a \<Longrightarrow> find (\<lambda>x. f x = a) xs = Some x"
  by (induction xs) (auto simp: image_iff)

lemma node_coords_resolves:
  assumes "distinct (map (\<lambda>r. r ''id'') (rows ns))" and "resolves ns a c"
  shows "node_coords ns (Some a) = map_option (\<lambda>xy. (Some (fst xy), Some (snd xy))) c"
proof (cases c)
  case None
  with assms(2) have "find (\<lambda>r. r ''id'' = Some a) (rows ns) = None"
    by (auto simp: resolves_def find_None_iff)
  with None show ?thesis by (simp add: node_coords_def)
next
  case (Some xy)
  with assms(2) obtain r where r: "r \<in> set (rows ns)" "r ''id'' = Some a"
    "r ''lon'' = Some (VFloat (fst xy))" "r ''lat'' = Some (VFloat (snd xy))"
    by (auto simp: resolves_def)
  from find_distinct [where f = "\<lambda>r. r ''id''", OF assms(1) r(1,2)] r(3,4) Some show ?thesis
    by (simp add: node_coords_def coordinate_def)
qed

lemma way_coords_of_links:
  assumes "way_links k wn = map (\<lambda>(i, a). (Some (VInt i), Some a)) (enumerate 0 refs)"
  shows "way_coords k ns wn = List.map_filter (\<lambda>a. node_coords ns (Some a)) refs"
proof -
  have "way_coords k ns wn
      = List.map_filter (\<lambda>p. node_coords ns (Some (snd p))) (enumerate 0 refs)"
    unfolding way_coords_def assms map_filter_map by (simp add: case_prod_unfold)
  also have "\<dots> = List.map_filter (\<lambda>a. node_coords ns (Some a)) (map snd (enumerate 0 refs))"
    by (simp only: map_filter_map)
  finally show ?thesis by simp
qed

lemma way_coords_resolved:
  assumes "distinct (map (\<lambda>r. r ''id'') (rows ns))"
    and "way_links k wn = map (\<lambda>(i, a). (Some (VInt i), Some a)) (enumerate 0 refs)"
    and "list_all2 (resolves ns) refs cs"
  shows "way_coords k ns wn = remaining cs"
  unfolding way_coords_of_links [OF assms(2)] remaining_def using assms(3)
  by (induction rule: list_all2_induct)
    (simp_all add: node_coords_resolves [OF assms(1)] split: option.splits)

lemma remaining_all_known:
  "remaining (map Some cs) = map (\<lambda>xy. (Some (fst xy), Some (snd xy))) cs"
  by (induction cs) (simp_all add: remaining_def)

lemma rendered_way_row:
  assumes rw: "rows g = map (\<lambda>r. r(''geometry'' := (case r ''id'' of None \<Rightarrow> None | Some k \<Rightarrow> line_cell k ns wn)))
                    (rows wt)"
    and j: "j < length (rows wt)" "(rows wt ! j) ''id'' = Some k"
  shows "length (rows g) = length (rows wt)"
    and "(rows g ! j) ''geometry'' = line_cell k ns wn"
    and "\<forall>c. c \<noteq> ''geometry'' \<longrightarrow> (rows g ! j) c = (rows wt ! j) c"
  using j by (simp_all add: rw)

lemma demo_frame_columns:
  "rows demo_waynodes_frame \<noteq> []"
  "{''id'', ''lon'', ''lat''} \<subseteq> set (columns demo_nodes_frame)"
  "''id'' \<in> set (columns demo_waynodes_frame)" "''index'' \<in> set (columns demo_waynodes_frame)"
  "''lon'' \<notin> set (columns demo_waynodes_frame)" "''lat'' \<notin> set (columns demo_waynodes_frame)"
  "''ref'' \<in> set (columns demo_waynodes_frame)"
  "''id'' \<in> set (columns demo_waytags_frame)"
  by (simp_all add: demo_waynodes_frame_def demo_nodes_frame_def demo_waytags_frame_def)

lemma demo_frame_cells:
  "distinct (map (\<lambda>r. r ''id'') (rows demo_nodes_frame))"
  "\<forall>l\<in>set (rows demo_waynodes_frame). int_index l"
  "\<forall>r\<in>set (rows demo_nodes_frame). float_or_null (r ''lon'') \<and> float_or_null (r ''lat'')"
  by (simp_all add: demo_waynodes_frame_def demo_nodes_frame_def int_index_def float_or_null_def)

lemma demo_way_links:
  "way_links (VStr ''10'') demo_waynodes_frame
     = map (\<lambda>(i, a). (Some (VInt i), Some a)) (enumerate 0 [VStr ''3'', VStr ''1'', VStr ''2''])"
  "way_links (VStr ''11'') demo_waynodes_frame
     = map (\<lambda>(i, a). (Some (VInt i), Some a)) (enumerate 0 [VStr ''98''])"
  "way_links (VStr ''12'') demo_waynodes_frame
     = map (\<lambda>(i, a). (Some (VInt i), Some a)) (enumerate 0 [VStr ''2'', VStr ''99'', VStr ''3''])"
  by (simp_all add: way_links_def demo_waynodes_frame_def index_key_def numeral_2_eq_2)

lemma demo_resolves:
  "resolves demo_nodes_frame (VStr ''1'') (Some (''-71.0'', ''42.5''))"
  "resolves demo_nodes_frame (VStr ''2'') (Some (''-71.1'', ''42.6''))"
  "resolves demo_nodes_frame (VStr ''3'') (Some (''-71.2'', ''42.7''))"
  "resolves demo_nodes_frame (VStr ''98'') None"
  "resolves demo_nodes_frame (VStr ''99'') None"
  by (simp_all add: resolves_def demo_nodes_frame_def)

lemma demo_way_coords:
  "way_coords (VStr ''10'') demo_nodes_frame demo_waynodes_frame
     = [(Some ''-71.2'', Some ''42.7''), (Some ''-71.0'', Some ''42.5''), (Some ''-71.1'', Some ''42.6'')]"
  "way_coords (VStr ''11'') demo_nodes_frame demo_waynodes_frame = []"
  "way_coords (VStr ''12'') demo_nodes_frame demo_waynodes_frame
     = [(Some ''-71.1'', Some ''42.6''), (Some ''-71.2'', Some ''42.7'')]"
  by (simp_all add: way_coords_resolved [OF demo_frame_cells(1) demo_way_links(1), where cs = "[Some (''-71.2'', ''42.7''), Some (''-71.0'', ''42.5''), Some (''-71.1'', ''42.6'')]"]
      way_coords_resolved [OF demo_frame_cells(1) demo_way_links(2), where cs = "[None]"]
      way_coords_resolved [OF demo_frame_cells(1) demo_way_links(3), where cs = "[Some (''-71.1'', ''42.6''), None, Some (''-71.2'', ''42.7'')]"]
      demo_resolves remaining_def)

lemma demo_way_ids:
  "\<forall>l\<in>set (rows demo_waynodes_frame).
      l ''id'' = Some (VStr ''10'') \<or> l ''id'' = Some (VStr ''11'') \<or> l ''id'' = Some (VStr ''12'')"
  "\<exists>l\<in>set (rows demo_waynodes_frame). l ''id'' = Some (VStr ''10'')"
  by (simp_all add: demo_waynodes_frame_def)

lemma demo_sizes:
  "\<forall>l\<in>set (rows demo_waynodes_frame). \<forall>k. l ''id'' = Some k \<longrightarrow>
      length (way_coords k demo_nodes_frame demo_waynodes_frame) \<noteq> 1"
  "\<exists>l\<in>set (rows demo_waynodes_frame). \<exists>k. l ''id'' = Some k \<and>
      way_coords k demo_nodes_frame demo_waynodes_frame \<noteq> []"
proof -
  show "\<forall>l\<in>set (rows demo_waynodes_frame). \<forall>k. l ''id'' = Some k \<longrightarrow>
      length (way_coords k demo_nodes_frame demo_waynodes_frame) \<noteq> 1"
  proof (intro ballI allI impI)
    fix l k assume "l \<in> set (rows demo_waynodes_frame)" "l ''id'' = Some k"
    with demo_way_ids(1) have "k = VStr ''10'' \<or> k = VStr ''11'' \<or> k = VStr ''12''" by auto
    then show "length (way_coords k demo_nodes_frame demo_waynodes_frame) \<noteq> 1"
      by (auto simp: demo_way_coords)
  qed
  from demo_way_ids(2) obtain l where "l \<in> set (rows demo_waynodes_frame)" "l ''id'' = Some (VStr ''10'')"
    by blast
  then show "\<exists>l\<in>set (rows demo_waynodes_frame). \<exists>k. l ''id'' = Some k \<and>
      way_coords k demo_nodes_frame demo_waynodes_frame \<noteq> []"
    by (auto simp: demo_way_coords intro!: bexI [of _ l])
qed

text \<open>
  C1. Let \<^verbatim>\<open>render_ways\<close> return a frame for a Nodes table with unique ids and a WayNodes
  table with the columns \<^verbatim>\<open>id\<close> and \<^verbatim>\<open>index\<close> and no column \<^verbatim>\<open>lon\<close> or \<^verbatim>\<open>lat\<close>. If the rows
  of way \<open>k\<close>, wherever they stand in WayNodes, carry the indices 0, 1, ... and the
  references \<open>refs\<close> in that order, and each reference is the id of a node with known
  coordinates (wherever that node stands in Nodes), then every WayTags row of way \<open>k\<close> is
  rendered with the line whose coordinate sequence is exactly the coordinates of \<open>refs\<close>,
  in the way's reference order; its other cells are those of the WayTags row.
\<close>

theorem way_line_in_reference_order:
  assumes ok: "render_ways ns wn wt = Inr (Some g)"
    and cols: "''id'' \<in> set (columns wn)" "''index'' \<in> set (columns wn)"
      "''lon'' \<notin> set (columns wn)" "''lat'' \<notin> set (columns wn)"
    and uniq: "distinct (map (\<lambda>r. r ''id'') (rows ns))"
    and links: "way_links k wn = map (\<lambda>(i, a). (Some (VInt i), Some a)) (enumerate 0 refs)"
    and known: "list_all2 (\<lambda>a xy. resolves ns a (Some xy)) refs cs"
    and ne: "refs \<noteq> []"
    and j: "j < length (rows wt)" "(rows wt ! j) ''id'' = Some k"
  shows "length (rows g) = length (rows wt)
       \<and> (rows g ! j) ''geometry''
           = Some (VGeom (LineString (map (\<lambda>xy. (Some (fst xy), Some (snd xy))) cs)))
       \<and> (\<forall>c. c \<noteq> ''geometry'' \<longrightarrow> (rows g ! j) c = (rows wt ! j) c)"
proof -
  from known have "list_all2 (resolves ns) refs (map Some cs)"
    by (simp add: list_all2_map2)
  from way_coords_resolved [OF uniq links this]
  have wc: "way_coords k ns wn = map (\<lambda>xy. (Some (fst xy), Some (snd xy))) cs"
    by (simp add: remaining_all_known)
  from known ne have "cs \<noteq> []" by (auto dest: list_all2_lengthD)
  with wc have "line_cell k ns wn
      = Some (VGeom (LineString (map (\<lambda>xy. (Some (fst xy), Some (snd xy))) cs)))"
    by (simp add: line_cell_def)
  with rendered_way_row [OF render_ways_rows(1) [OF ok cols uniq] j]
  show ?thesis by simp
qed

theorem way_line_in_reference_order_witness:
  "way_links (VStr ''10'') demo_waynodes_frame
     = [(Some (VInt 0), Some (VStr ''3'')), (Some (VInt 1), Some (VStr ''1'')),
        (Some (VInt 2), Some (VStr ''2''))]
   \<and> resolves demo_nodes_frame (VStr ''3'') (Some (''-71.2'', ''42.7''))
   \<and> resolves demo_nodes_frame (VStr ''1'') (Some (''-71.0'', ''42.5''))
   \<and> resolves demo_nodes_frame (VStr ''2'') (Some (''-71.1'', ''42.6''))
   \<and> (\<exists>g. render_ways demo_nodes_frame demo_waynodes_frame demo_waytags_frame = Inr (Some g)
          \<and> length (rows g) = 3
          \<and> (rows g ! 0) ''geometry''
              = Some (VGeom (LineString [(Some ''-71.2'', Some ''42.7''), (Some ''-71.0'', Some ''42.5''),
                                         (Some ''-71.1'', Some ''42.6'')]))
          \<and> (rows g ! 0) ''name'' = Some (VStr ''Centre Street''))"
proof -
  have j0: "0 < length (rows demo_waytags_frame)" "(rows demo_waytags_frame ! 0) ''id'' = Some (VStr ''10'')"
    and len: "length (rows demo_waytags_frame) = 3"
    and name: "(rows demo_waytags_frame ! 0) ''name'' = Some (VStr ''Centre Street'')"
    by (simp_all add: demo_waytags_frame_def)
  have known: "list_all2 (\<lambda>a xy. resolves demo_nodes_frame a (Some xy)) [VStr ''3'', VStr ''1'', VStr ''2'']
      [(''-71.2'', ''42.7''), (''-71.0'', ''42.5''), (''-71.1'', ''42.6'')]"
    by (simp add: demo_resolves)
  from render_ways_total [OF demo_frame_columns demo_frame_cells demo_sizes]
  obtain g where g: "render_ways demo_nodes_frame demo_waynodes_frame demo_waytags_frame = Inr (Some g)"
    by blast
  from way_line_in_reference_order [OF g demo_frame_columns(3-6) demo_frame_cells(1)
      demo_way_links(1) known _ j0] len name
  have "length (rows g) = 3"
    "(rows g ! 0) ''geometry''
              = Some (VGeom (LineString [(Some ''-71.2'', Some ''42.7''), (Some ''-71.0'', Some ''42.5''),
                                         (Some ''-71.1'', Some ''42.6'')]))"
    "(rows g ! 0) ''name'' = Some (VStr ''Centre Street'')"
    by simp_all
  moreover have "way_links (VStr ''10'') demo_waynodes_frame
     = [(Some (VInt 0), Some (VStr ''3'')), (Some (VInt 1), Some (VStr ''1'')),
        (Some (VInt 2), Some (VStr ''2''))]"
    by (simp add: demo_way_links enumerate_eq_zip upt_rec numeral_2_eq_2)
  ultimately show ?thesis using g demo_resolves by blast
qed

text \<open>
  C5, as amended. Let the tables be as the readers build them (Nodes with the columns
  \<^verbatim>\<open>id\<close>, \<^verbatim>\<open>lon\<close>, \<^verbatim>\<open>lat\<close>, unique ids and float or null coordinates; WayNodes non-empty,
  with the columns \<^verbatim>\<open>id\<close>, \<^verbatim>\<open>ref\<close>, \<^verbatim>\<open>index\<close>, integer indices and no column \<^verbatim>\<open>lon\<close> or
  \<^verbatim>\<open>lat\<close>; WayTags with the column \<^verbatim>\<open>id\<close>). If no way is left with exactly one matching
  reference and some way keeps a matching reference, then \<^verbatim>\<open>render_ways\<close> does not fail;
  a reference that matches no node is dropped by the join, the line of a way is made of
  the coordinates of its remaining references in order, and a way all of whose
  references are dangling gets a null geometry, not an empty line.
\<close>

theorem dangling_references_dropped:
  assumes nonempty: "rows wn \<noteq> []"
    and ncols: "{''id'', ''lon'', ''lat''} \<subseteq> set (columns ns)"
    and cols: "''id'' \<in> set (columns wn)" "''index'' \<in> set (columns wn)"
      "''lon'' \<notin> set (columns wn)" "''lat'' \<notin> set (columns wn)"
    and ref: "''ref'' \<in> set (columns wn)"
    and wtid: "''id'' \<in> set (columns wt)"
    and uniq: "distinct (map (\<lambda>r. r ''id'') (rows ns))"
    and ints: "\<forall>l\<in>set (rows wn). int_index l"
    and floats: "\<forall>r\<in>set (rows ns). float_or_null (r ''lon'') \<and> float_or_null (r ''lat'')"
    and sizes: "\<forall>l\<in>set (rows wn). \<forall>k. l ''id'' = Some k \<longrightarrow> length (way_coords k ns wn) \<noteq> 1"
    and some: "\<exists>l\<in>set (rows wn). \<exists>k. l ''id'' = Some k \<and> way_coords k ns wn \<noteq> []"
    and links: "way_links k wn = map (\<lambda>(i, a). (Some (VInt i), Some a)) (enumerate 0 refs)"
    and status: "list_all2 (resolves ns) refs cs"
    and j: "j < length (rows wt)" "(rows wt ! j) ''id'' = Some k"
  shows "\<exists>g. render_ways ns wn wt = Inr (Some g)
           \<and> length (rows g) = length (rows wt)
           \<and> (rows g ! j) ''geometry''
               = (if remaining cs = [] then None else Some (VGeom (LineString (remaining cs))))
           \<and> (\<forall>c. c \<noteq> ''geometry'' \<longrightarrow> (rows g ! j) c = (rows wt ! j) c)"
proof -
  from render_ways_total [OF nonempty ncols cols ref wtid uniq ints floats sizes some]
  obtain g where ok: "render_ways ns wn wt = Inr (Some g)" by blast
  have "line_cell k ns wn = (if remaining cs = [] then None else Some (VGeom (LineString (remaining cs))))"
    by (simp add: line_cell_def way_coords_resolved [OF uniq links status])
  with rendered_way_row [OF render_ways_rows(1) [OF ok cols uniq] j] ok
  show ?thesis by auto
qed

theorem dangling_references_dropped_witness:
  "way_links (VStr ''12'') demo_waynodes_frame
     = [(Some (VInt 0), Some (VStr ''2'')), (Some (VInt 1), Some (VStr ''99'')),
        (Some (VInt 2), Some (VStr ''3''))]
   \<and> resolves demo_nodes_frame (VStr ''2'') (Some (''-71.1'', ''42.6''))
   \<and> resolves demo_nodes_frame (VStr ''99'') None
   \<and> resolves demo_nodes_frame (VStr ''3'') (Some (''-71.2'', ''42.7''))
   \<and> way_links (VStr ''11'') demo_waynodes_frame = [(Some (VInt 0), Some (VStr ''98''))]
   \<and> resolves demo_nodes_frame (VStr ''98'') None
   \<and> (\<exists>g. render_ways demo_nodes_frame demo_waynodes_frame demo_waytags_frame = Inr (Some g)
          \<and> length (rows g) = 3
          \<and> (rows g ! 2) ''geometry''
              = Some (VGeom (LineString [(Some ''-71.1'', Some ''42.6''), (Some ''-71.2'', Some ''42.7'')]))
          \<and> (rows g ! 1) ''geometry'' = None)"
proof -
  have j2: "2 < length (rows demo_waytags_frame)" "(rows demo_waytags_frame ! 2) ''id'' = Some (VStr ''12'')"
    and j1: "1 < length (rows demo_waytags_frame)" "(rows demo_waytags_frame ! 1) ''id'' = Some (VStr ''11'')"
    and len: "length (rows demo_waytags_frame) = 3"
    by (simp_all add: demo_waytags_frame_def)
  have s12: "list_all2 (resolves demo_nodes_frame) [VStr ''2'', VStr ''99'', VStr ''3'']
      [Some (''-71.1'', ''42.6''), None, Some (''-71.2'', ''42.7'')]"
    and s11: "list_all2 (resolves demo_nodes_frame) [VStr ''98''] [None]"
    by (simp_all add: demo_resolves)
  from dangling_references_dropped [OF demo_frame_columns demo_frame_cells demo_sizes
      demo_way_links(3) s12 j2]
  obtain g where g: "render_ways demo_nodes_frame demo_waynodes_frame demo_waytags_frame = Inr (Some g)"
    and g1: "length (rows g) = 3"
      "(rows g ! 2) ''geometry''
         = Some (VGeom (LineString [(Some ''-71.1'', Some ''42.6''), (Some ''-71.2'', Some ''42.7'')]))"
    by (auto simp: remaining_def len)
  from dangling_references_dropped [OF demo_frame_columns demo_frame_cells demo_sizes
      demo_way_links(2) s11 j1] g
  have g2: "(rows g ! 1) ''geometry'' = None"
    by (auto simp: remaining_def)
  have l12: "way_links (VStr ''12'') demo_waynodes_frame
     = [(Some (VInt 0), Some (VStr ''2'')), (Some (VInt 1), Some (VStr ''99'')),
        (Some (VInt 2), Some (VStr ''3''))]"
    and l11: "way_links (VStr ''11'') demo_waynodes_frame = [(Some (VInt 0), Some (VStr ''98''))]"
    by (simp_all add: demo_way_links enumerate_eq_zip upt_rec numeral_2_eq_2)
  from g g1 g2 l12 l11 demo_resolves show ?thesis by blast
qed

text \<open>
  The claim as first stated fails in both parts. A way that references the node 1 and
  the missing node 99 keeps one coordinate, \<^verbatim>\<open>LineString\<close> refuses it and the whole read
  raises \<^verbatim>\<open>ValueError\<close>. A way whose two references are both missing, beside a way that
  renders, gets a null geometry cell and not an empty line.
\<close>

theorem dangling_reference_counterexample:
  "read_doc demo_float demo_datetime demo_dangling_doc True True = Inl ValueError
   \<and> map_sum id rendered_geometries (read_doc demo_float demo_datetime demo_all_dangling_doc True True)
       = Inr [Some (VGeom (LineString [(Some ''-71.0'', Some ''42.5''), (Some ''-71.1'', Some ''42.6'')])),
              None]"
  by (simp add: read_doc_def read_nodes_def read_ways_def read_relations_def read_linked_def
      demo_dangling_doc_def demo_all_dangling_doc_def
      findall_def element_to_dict_def getitem_def strs_def link_dicts_def
      dict_to_dataframe_def from_dict_def
      astype_float_def convert_column_def demo_float_def uninteresting_tags_def
      render_to_gdf_def render_nodes_def render_ways_def drop_labels_def dropna_all_def
      point_of_def row_item_def drop_columns_def set_geometry_def select_columns_def
      merge_frames_def merge_row_def suffixed_def groupby_apply_def group_keys_def wayline_def
      int_index_def index_key_def lonlat_def line_string_def attach_lines_def append_frames_def
      enumerate_eq_zip upt_rec numeral_2_eq_2 Let_def)

end
